theory Spec2Isabelle
  imports Main "HOL-Library.Word" "HOL-Library.Log_Nat"
begin

section \<open>JavaScript values used by \<open>js/app.js\<close>\<close>

subsection \<open>Strings\<close>

text \<open>
  A JavaScript string is a sequence of 16-bit code units. String literals of the source
  are written with \<open>lit\<close>; a code unit outside ASCII is given by its number
  (\<open>0xE9\<close> is e-acute, \<open>0xE0\<close> a-grave, \<open>0x2019\<close> the typographic apostrophe).
\<close>

type_synonym jsstring = "16 word list"

definition lit :: "string \<Rightarrow> jsstring" where
  "lit s = map of_char s"

text \<open>
  \<open>String.prototype.trim\<close> removes WhiteSpace and LineTerminator code points at both
  ends: TAB, LF, VT, FF, CR, SP, NBSP, the other space separators, LS, PS and the
  byte-order mark.
\<close>

definition is_ws :: "16 word \<Rightarrow> bool" where
  "is_ws c \<longleftrightarrow>
     (0x09 \<le> c \<and> c \<le> 0x0D) \<or> c = 0x20 \<or> c = 0xA0 \<or> c = 0x1680 \<or>
     (0x2000 \<le> c \<and> c \<le> 0x200A) \<or> c = 0x2028 \<or> c = 0x2029 \<or> c = 0x202F \<or>
     c = 0x205F \<or> c = 0x3000 \<or> c = 0xFEFF"

definition trimStart :: "jsstring \<Rightarrow> jsstring" where
  "trimStart s = dropWhile is_ws s"

definition trim :: "jsstring \<Rightarrow> jsstring" where
  "trim s = rev (dropWhile is_ws (rev (dropWhile is_ws s)))"

text \<open>\<open>a || b\<close> on strings: the empty string is the only falsy string.\<close>

definition or_str :: "jsstring \<Rightarrow> jsstring \<Rightarrow> jsstring" where
  "or_str a b = (if a \<noteq> [] then a else b)"

subsection \<open>Numbers\<close>

text \<open>
  A Number is an IEEE 754 binary64 value: NaN, an infinity, or a finite value given by
  its sign (\<open>True\<close> for negative) and its magnitude; \<open>Fin True 0\<close> is the negative zero.
  Every arithmetic operation computes the exact result and rounds it to the nearest
  binary64 value, ties to even, which \<open>fl_mag\<close> does on a magnitude: 53 significant
  bits, the least exponent \<open>-1022\<close> (below it the spacing stays \<open>2^-1074\<close>), and overflow
  (\<open>None\<close>) when the rounded magnitude reaches \<open>2^1024\<close>.
\<close>

datatype jsnum = NaN | Inf bool | Fin bool rat

text \<open>The binary exponent of \<open>q > 0\<close>: the \<open>e\<close> with \<open>2^e \<le> q < 2^(e+1)\<close>.\<close>

definition binexp :: "rat \<Rightarrow> int" where
  "binexp q = (if 1 \<le> q then bitlen \<lfloor>q\<rfloor> - 1 else - bitlen (\<lceil>1 / q\<rceil> - 1))"

definition round_half_even :: "rat \<Rightarrow> int" where
  "round_half_even t =
     (let f = \<lfloor>t\<rfloor>; r = t - of_int f in
      if r < 1 / 2 then f else if 1 / 2 < r then f + 1
      else if even f then f else f + 1)"

definition fl_mag :: "rat \<Rightarrow> rat option" where
  "fl_mag q =
     (if q = 0 then Some 0
      else let e = max (binexp q) (- 1022); u = 2 powi (e - 52);
               r = of_int (round_half_even (q / u)) * u
           in if 2 ^ 1024 \<le> r then None else Some r)"

definition mk :: "bool \<Rightarrow> rat \<Rightarrow> jsnum" where
  "mk s q = (case fl_mag q of None \<Rightarrow> Inf s | Some r \<Rightarrow> Fin s r)"

definition sval :: "bool \<Rightarrow> rat \<Rightarrow> rat" where
  "sval s q = (if s then - q else q)"

fun js_neg :: "jsnum \<Rightarrow> jsnum" where
  "js_neg NaN = NaN"
| "js_neg (Inf s) = Inf (\<not> s)"
| "js_neg (Fin s q) = Fin (\<not> s) q"

fun js_mul :: "jsnum \<Rightarrow> jsnum \<Rightarrow> jsnum" where
  "js_mul NaN y = NaN"
| "js_mul x NaN = NaN"
| "js_mul (Inf s) (Inf t) = Inf (s \<noteq> t)"
| "js_mul (Inf s) (Fin t q) = (if q = 0 then NaN else Inf (s \<noteq> t))"
| "js_mul (Fin s p) (Inf t) = (if p = 0 then NaN else Inf (s \<noteq> t))"
| "js_mul (Fin s p) (Fin t q) = mk (s \<noteq> t) (p * q)"

fun js_div :: "jsnum \<Rightarrow> jsnum \<Rightarrow> jsnum" where
  "js_div NaN y = NaN"
| "js_div x NaN = NaN"
| "js_div (Inf s) (Inf t) = NaN"
| "js_div (Inf s) (Fin t q) = Inf (s \<noteq> t)"
| "js_div (Fin s p) (Inf t) = Fin (s \<noteq> t) 0"
| "js_div (Fin s p) (Fin t q) =
     (if q = 0 then (if p = 0 then NaN else Inf (s \<noteq> t)) else mk (s \<noteq> t) (p / q))"

fun js_add :: "jsnum \<Rightarrow> jsnum \<Rightarrow> jsnum" where
  "js_add NaN y = NaN"
| "js_add x NaN = NaN"
| "js_add (Inf s) (Inf t) = (if s = t then Inf s else NaN)"
| "js_add (Inf s) (Fin t q) = Inf s"
| "js_add (Fin s p) (Inf t) = Inf t"
| "js_add (Fin s p) (Fin t q) =
     (let v = sval s p + sval t q in
      if v = 0 then Fin (s \<and> t) 0 else mk (v < 0) \<bar>v\<bar>)"

definition js_sub :: "jsnum \<Rightarrow> jsnum \<Rightarrow> jsnum" where
  "js_sub x y = js_add x (js_neg y)"

fun js_abs :: "jsnum \<Rightarrow> jsnum" where
  "js_abs NaN = NaN"
| "js_abs (Inf s) = Inf False"
| "js_abs (Fin s q) = Fin False q"

text \<open>\<open>x <= y\<close> and \<open>x < y\<close>: false whenever an operand is NaN; the zeros are equal.\<close>

fun js_le :: "jsnum \<Rightarrow> jsnum \<Rightarrow> bool" where
  "js_le NaN y = False"
| "js_le x NaN = False"
| "js_le (Inf s) (Inf t) = (s \<or> \<not> t)"
| "js_le (Inf s) (Fin t q) = s"
| "js_le (Fin s p) (Inf t) = (\<not> t)"
| "js_le (Fin s p) (Fin t q) = (sval s p \<le> sval t q)"

fun js_lt :: "jsnum \<Rightarrow> jsnum \<Rightarrow> bool" where
  "js_lt NaN y = False"
| "js_lt x NaN = False"
| "js_lt (Inf s) (Inf t) = (s \<and> \<not> t)"
| "js_lt (Inf s) (Fin t q) = s"
| "js_lt (Fin s p) (Inf t) = (\<not> t)"
| "js_lt (Fin s p) (Fin t q) = (sval s p < sval t q)"

definition isNaN :: "jsnum \<Rightarrow> bool" where
  "isNaN x \<longleftrightarrow> x = NaN"

text \<open>ToBoolean on a Number: NaN and both zeros are falsy, everything else is truthy.\<close>

fun truthy :: "jsnum \<Rightarrow> bool" where
  "truthy NaN = False"
| "truthy (Inf s) = True"
| "truthy (Fin s q) = (q \<noteq> 0)"

text \<open>
  \<open>Math.round\<close>: the nearest integer, a tie going towards \<open>+\<infinity>\<close>; NaN, the infinities
  and the zeros are returned as they are, and a value in \<open>[-0.5, 0)\<close> gives the negative
  zero. The integer \<open>\<lfloor>x + 1/2\<rfloor>\<close> is a binary64 value whenever \<open>x\<close> is one.
\<close>

fun Math_round :: "jsnum \<Rightarrow> jsnum" where
  "Math_round NaN = NaN"
| "Math_round (Inf s) = Inf s"
| "Math_round (Fin s q) =
     (let k = \<lfloor>sval s q + 1 / 2\<rfloor> in Fin (if k = 0 then s else k < 0) (of_int \<bar>k\<bar>))"

text \<open>The numeric literals of the source; each is a binary64 value as written.\<close>

definition num :: "rat \<Rightarrow> jsnum" where
  "num q = Fin False q"

subsection \<open>\<open>parseFloat\<close>\<close>

text \<open>
  \<open>parseFloat\<close> skips leading white space and reads the longest prefix that is a
  StrDecimalLiteral: an optional sign, then \<open>Infinity\<close> or decimal digits with an
  optional fraction and an optional exponent part (an exponent indicator counts only
  when digits follow it). Without such a prefix the result is NaN; otherwise it is the
  binary64 value nearest to the decimal value read.
\<close>

definition is_digit :: "16 word \<Rightarrow> bool" where
  "is_digit c \<longleftrightarrow> 0x30 \<le> c \<and> c \<le> 0x39"

definition digits_val :: "jsstring \<Rightarrow> int" where
  "digits_val ds = foldl (\<lambda>a c. 10 * a + (uint c - 48)) 0 ds"

definition exponent_part :: "jsstring \<Rightarrow> int" where
  "exponent_part s =
     (case s of
        [] \<Rightarrow> 0
      | c # r \<Rightarrow>
          if c = 0x65 \<or> c = 0x45 then
            (case r of
               [] \<Rightarrow> 0
             | d # r' \<Rightarrow>
                 if is_digit d then digits_val (takeWhile is_digit r)
                 else if d = 0x2B \<and> takeWhile is_digit r' \<noteq> [] then
                   digits_val (takeWhile is_digit r')
                 else if d = 0x2D \<and> takeWhile is_digit r' \<noteq> [] then
                   - digits_val (takeWhile is_digit r')
                 else 0)
          else 0)"

definition str_unsigned :: "jsstring \<Rightarrow> jsnum" where
  "str_unsigned s =
     (if take 8 s = lit ''Infinity'' then Inf False
      else
        let ip = takeWhile is_digit s; r1 = dropWhile is_digit s;
            dot = (r1 \<noteq> [] \<and> hd r1 = 0x2E);
            fp = (if dot then takeWhile is_digit (tl r1) else []);
            r3 = (if dot then dropWhile is_digit (tl r1) else r1)
        in if ip = [] \<and> fp = [] then NaN
           else mk False (of_int (digits_val (ip @ fp)) *
                          10 powi (exponent_part r3 - int (length fp))))"

definition parseFloat :: "jsstring \<Rightarrow> jsnum" where
  "parseFloat s =
     (case trimStart s of
        [] \<Rightarrow> NaN
      | c # r \<Rightarrow>
          if c = 0x2B then str_unsigned r
          else if c = 0x2D then js_neg (str_unsigned r)
          else str_unsigned (c # r))"

subsection \<open>\<open>Date.prototype.toISOString\<close>\<close>

text \<open>
  A Date holds a time value, the milliseconds since 1970-01-01T00:00:00Z.
  \<open>toISOString\<close> writes it in UTC as \<open>YYYY-MM-DDTHH:mm:ss.sssZ\<close>; a year outside
  \<open>0..9999\<close> is written with a sign and six digits. \<open>civil_from_days\<close> is the date of the
  proleptic Gregorian calendar (year, month \<open>1..12\<close>, day of the month) of a day number
  counted from 1970-01-01. It is computed over the 400-year cycle of 146097 days that
  starts on a first of March: the cycle and the day in it, the year in the cycle, the
  day in that year, the month counted from March, and from these the date.
\<close>

definition msPerDay :: int where
  "msPerDay = 86400000"

definition civil_of_month :: "int \<Rightarrow> int \<Rightarrow> int \<Rightarrow> int \<times> int \<times> int" where
  "civil_of_month y doy mp =
     (y + (if mp < 10 then 0 else 1), (if mp < 10 then mp + 3 else mp - 9),
      doy - (153 * mp + 2) div 5 + 1)"

definition civil_of_year_day :: "int \<Rightarrow> int \<Rightarrow> int \<times> int \<times> int" where
  "civil_of_year_day y doy = civil_of_month y doy ((5 * doy + 2) div 153)"

definition civil_of_era_year :: "int \<Rightarrow> int \<Rightarrow> int \<Rightarrow> int \<times> int \<times> int" where
  "civil_of_era_year era doe yoe =
     civil_of_year_day (yoe + era * 400) (doe - (365 * yoe + yoe div 4 - yoe div 100))"

definition civil_of_era_day :: "int \<Rightarrow> int \<Rightarrow> int \<times> int \<times> int" where
  "civil_of_era_day era doe =
     civil_of_era_year era doe ((doe - doe div 1460 + doe div 36524 - doe div 146096) div 365)"

definition civil_from_days :: "int \<Rightarrow> int \<times> int \<times> int" where
  "civil_from_days z = civil_of_era_day ((z + 719468) div 146097) ((z + 719468) mod 146097)"

definition digit_char :: "int \<Rightarrow> 16 word" where
  "digit_char n = of_int (48 + n mod 10)"

definition pad2 :: "int \<Rightarrow> jsstring" where
  "pad2 n = [digit_char (n div 10), digit_char n]"

definition pad3 :: "int \<Rightarrow> jsstring" where
  "pad3 n = digit_char (n div 100) # pad2 n"

definition pad4 :: "int \<Rightarrow> jsstring" where
  "pad4 n = digit_char (n div 1000) # pad3 n"

definition pad6 :: "int \<Rightarrow> jsstring" where
  "pad6 n = digit_char (n div 100000) # digit_char (n div 10000) # pad4 n"

definition iso_year :: "int \<Rightarrow> jsstring" where
  "iso_year y =
     (if 0 \<le> y \<and> y \<le> 9999 then pad4 y
      else (if y < 0 then lit ''-'' else lit ''+'') @ pad6 \<bar>y\<bar>)"

definition iso_date :: "int \<Rightarrow> jsstring" where
  "iso_date t =
     (case civil_from_days (t div msPerDay) of
        (y, m, d) \<Rightarrow> iso_year y @ lit ''-'' @ pad2 m @ lit ''-'' @ pad2 d)"

definition iso_time :: "int \<Rightarrow> jsstring" where
  "iso_time t =
     (let ms = t mod msPerDay in
      pad2 (ms div 3600000) @ lit '':'' @ pad2 (ms div 60000 mod 60) @ lit '':'' @
      pad2 (ms div 1000 mod 60) @ lit ''.'' @ pad3 (ms mod 1000))"

definition toISOString :: "int \<Rightarrow> jsstring" where
  "toISOString t = iso_date t @ lit ''T'' @ iso_time t @ lit ''Z''"

section \<open>The page and its host\<close>

text \<open>
  The host supplies what the script takes from the browser: the currency formatter
  \<open>new Intl.NumberFormat('fr-FR', {style: 'currency', currency: 'EUR'})\<close>, the time
  value that \<open>new Date()\<close> reads, and the offset of the local time zone in milliseconds
  (local time is UTC plus the offset); the script never reads the offset.
\<close>

record env =
  EURO_format :: "jsnum \<Rightarrow> jsstring"
  now :: int
  LocalTZA :: int

text \<open>
  An element is kept as the markup assigned to its \<open>innerHTML\<close> and its \<open>classList\<close>.
  The page state is the values of the four inputs of \<open>#aiciForm\<close>, the preview element
  \<open>#calcZone\<close>, the rows of \<open>#historyTable tbody\<close> from top to bottom, and the messages
  shown by \<open>alert\<close>, oldest first.
\<close>

record element =
  innerHTML :: jsstring
  classList :: "jsstring list"

record page =
  client_value :: jsstring
  prestation_value :: jsstring
  datePrest_value :: jsstring
  montant_value :: jsstring
  calcZone :: element
  tbody :: "element list"
  alerts :: "jsstring list"

definition createElement :: element where
  "createElement = \<lparr>innerHTML = [], classList = []\<rparr>"

definition classList_add :: "jsstring \<Rightarrow> element \<Rightarrow> element" where
  "classList_add t el =
     (if t \<in> set (classList el) then el else el\<lparr>classList := classList el @ [t]\<rparr>)"

definition classList_remove :: "jsstring \<Rightarrow> element \<Rightarrow> element" where
  "classList_remove t el = el\<lparr>classList := removeAll t (classList el)\<rparr>"

definition alert :: "jsstring \<Rightarrow> page \<Rightarrow> page" where
  "alert msg pg = pg\<lparr>alerts := alerts pg @ [msg]\<rparr>"

definition form_reset :: "page \<Rightarrow> page" where
  \<comment> \<open>Modelled from the spec: the markup of \<open>#aiciForm\<close>, which fixes the default value each
     control returns to on \<open>form.reset()\<close>, is not among the sources; the spec has the
     reset clear all form fields to empty.\<close>
  "form_reset pg =
     pg\<lparr>client_value := [], prestation_value := [], datePrest_value := [],
        montant_value := []\<rparr>"

datatype js_error = TypeError

section \<open>The script\<close>

text \<open>\<open>function format(n){ return EURO.format(Number(n||0)); }\<close>\<close>

definition format :: "env \<Rightarrow> jsnum \<Rightarrow> jsstring" where
  "format env n = EURO_format env (if truthy n then n else num 0)"

text \<open>\<open>function today(){ return new Date().toISOString().slice(0,10); }\<close>\<close>

definition today :: "env \<Rightarrow> jsstring" where
  "today env = take 10 (toISOString (now env))"

text \<open>The object \<open>{ montant, aici, reste }\<close> that \<open>compute\<close> returns.\<close>

record calc =
  montant :: jsnum
  aici :: jsnum
  reste :: jsnum

text \<open>
  \<open>compute\<close> returns \<open>None\<close> for \<open>undefined\<close> (the bare \<open>return\<close>) and the page as it
  leaves it.
\<close>

definition compute :: "env \<Rightarrow> page \<Rightarrow> calc option \<times> page" where
  "compute env pg =
     (let mt = parseFloat (or_str (montant_value pg) (lit ''0'')) in
      if isNaN mt \<or> js_le mt (num 0) then
        (None, pg\<lparr>calcZone := classList_add (lit ''hidden'') (calcZone pg)\<rparr>)
      else
        let ai = js_div (Math_round (js_mul (js_mul mt (num (1 / 2))) (num 100))) (num 100);
            re = js_div (Math_round (js_mul (js_sub mt ai) (num 100))) (num 100);
            pg1 = pg\<lparr>calcZone := (calcZone pg)\<lparr>innerHTML :=
                    [0x0A] @ lit ''      <div><strong>Total TTC :</strong> '' @
                    format env mt @ lit ''</div>'' @
                    [0x0A] @ lit ''      <div><strong>Avance imm'' @ [0xE9] @
                    lit ''diate (50%) :</strong> '' @ format env ai @ lit ''</div>'' @
                    [0x0A] @ lit ''      <div><strong>Reste '' @ [0xE0] @
                    lit '' charge client :</strong> '' @ format env re @ lit ''</div>'' @
                    [0x0A] @ lit ''      <small>Note : calcul d'' @ [0xE9] @
                    lit ''mo simplifi'' @ [0xE9] @
                    lit '', sans plafonds ni cas particuliers.</small>'' @
                    [0x0A] @ lit ''    ''\<rparr>\<rparr>;
            pg2 = pg1\<lparr>calcZone := classList_remove (lit ''hidden'') (calcZone pg1)\<rparr>
        in (Some \<lparr>montant = mt, aici = ai, reste = re\<rparr>, pg2))"

text \<open>The two messages the submit handler passes to \<open>alert\<close>.\<close>

definition msg_incomplete :: jsstring where
  "msg_incomplete = lit ''Merci de compl'' @ [0xE9] @ lit ''ter le formulaire.''"

definition msg_transmitted :: jsstring where
  "msg_transmitted =
     lit ''Dossier transmis (d'' @ [0xE9] @ lit ''mo). Aucun envoi r'' @ [0xE9] @ lit ''el '' @
     [0xE0] @ lit '' l'' @ [0x2019] @ lit ''URSSAF n'' @ [0x2019] @ lit ''est effectu'' @
     [0xE9] @ lit ''.''"

text \<open>
  The submit handler. \<open>Inr\<close> is a normal return with the page it leaves; \<open>Inl\<close> is an
  exception thrown out of the handler, with the page as it is at that point. Reading
  \<open>calc.aici\<close> when \<open>compute\<close> returned \<open>undefined\<close> throws a TypeError.
\<close>

definition submit :: "env \<Rightarrow> page \<Rightarrow> (js_error \<times> page) + page" where
  "submit env pg =
     (let c = trim (client_value pg);
          p = trim (prestation_value pg);
          d = or_str (datePrest_value pg) (today env);
          m = parseFloat (or_str (montant_value pg) (lit ''0''))
      in if c = [] \<or> p = [] \<or> \<not> truthy m then
           Inr (alert msg_incomplete pg)
         else
           (case compute env pg of
              (None, pg1) \<Rightarrow> Inl (TypeError, pg1)
            | (Some calc, pg1) \<Rightarrow>
                let tr = createElement\<lparr>innerHTML :=
                           lit ''<td>'' @ d @ lit ''</td><td>'' @ c @ lit ''</td><td>'' @ p @
                           lit ''</td><td>'' @ format env m @ lit ''</td><td>'' @
                           format env (aici calc) @ lit ''</td><td>Transmis (d'' @ [0xE9] @
                           lit ''mo)</td>''\<rparr>;
                    pg2 = pg1\<lparr>tbody := tr # tbody pg1\<rparr>;
                    pg3 = form_reset pg2;
                    pg4 = pg3\<lparr>calcZone := classList_add (lit ''hidden'') (calcZone pg3)\<rparr>
                in Inr (alert msg_transmitted pg4)))"

text \<open>The demonstration rows, and the loop that runs when the script is loaded.\<close>

record seed_row =
  seed_d :: jsstring
  seed_c :: jsstring
  seed_p :: jsstring
  seed_m :: jsnum

definition seed :: "seed_row list" where
  "seed =
     [\<lparr>seed_d = lit ''2025-10-12'', seed_c = lit ''Mme Dupont'',
       seed_p = lit ''Entretien jardin'', seed_m = num 80\<rparr>,
      \<lparr>seed_d = lit ''2025-10-05'', seed_c = lit ''M. Martin'',
       seed_p = lit ''Bricolage l'' @ [0xE9] @ lit ''ger'', seed_m = num 120\<rparr>]"

definition seed_tr :: "env \<Rightarrow> seed_row \<Rightarrow> element" where
  "seed_tr env x =
     (let ai = js_mul (seed_m x) (num (1 / 2)) in
      createElement\<lparr>innerHTML :=
        lit ''<td>'' @ seed_d x @ lit ''</td><td>'' @ seed_c x @ lit ''</td><td>'' @
        seed_p x @ lit ''</td><td>'' @ format env (seed_m x) @ lit ''</td><td>'' @
        format env ai @ lit ''</td><td>R'' @ [0xE9] @ lit ''gl'' @ [0xE9] @
        lit '' (d'' @ [0xE9] @ lit ''mo)</td>''\<rparr>)"

definition load :: "env \<Rightarrow> page \<Rightarrow> page" where
  "load env pg = foldl (\<lambda>pg x. pg\<lparr>tbody := tbody pg @ [seed_tr env x]\<rparr>) pg seed"

section \<open>Notions of the specification\<close>

text \<open>
  The amount both \<open>compute\<close> and the submit handler read:
  \<open>parseFloat(document.getElementById('montant').value || '0')\<close>.
\<close>

definition amount :: "page \<Rightarrow> jsnum" where
  "amount pg = parseFloat (or_str (montant_value pg) (lit ''0''))"

text \<open>The preview area is hidden when \<open>#calcZone\<close> carries the class \<open>hidden\<close>.\<close>

definition hidden :: "page \<Rightarrow> bool" where
  "hidden pg \<longleftrightarrow> lit ''hidden'' \<in> set (classList (calcZone pg))"

text \<open>
  The specification's \<open>round(x, 2dp)\<close>, in the arithmetic of the host: scale by 100, round
  to the nearest integer with a tie going up, scale back.
\<close>

definition round_2dp :: "jsnum \<Rightarrow> jsnum" where
  "round_2dp x = js_div (Math_round (js_mul x (num 100))) (num 100)"

text \<open>
  Rounding half up at two decimal places in the words of the specification, on the exact
  value: the nearest multiple of \<open>1/100\<close>, a tie going up. A value is far from a tie
  when its hundredfold is more than \<open>2\<^sup>-\<^sup>2\<^sup>6\<close> away from every \<open>k + 1/2\<close>.
\<close>

definition half_up_2dp :: "rat \<Rightarrow> rat" where
  "half_up_2dp v = of_int \<lfloor>v * 100 + 1 / 2\<rfloor> / 100"

definition far_from_tie :: "rat \<Rightarrow> bool" where
  "far_from_tie v \<longleftrightarrow> 1 / 67108864 < \<bar>v * 100 - of_int \<lfloor>v * 100\<rfloor> - 1 / 2\<bar>"

text \<open>The result the specification gives for a positive amount \<open>A\<close>.\<close>

definition calc_of :: "jsnum \<Rightarrow> calc" where
  "calc_of A =
     \<lparr>montant = A,
      aici = round_2dp (js_mul A (num (1 / 2))),
      reste = round_2dp (js_sub A (round_2dp (js_mul A (num (1 / 2)))))\<rparr>"

text \<open>
  Equality within the tolerance \<open>1e-9\<close>, as a test would compute it:
  \<open>Math.abs(x - y) <= 1e-9\<close>. The invariant of the specification for a result: advance
  plus remainder equals the gross amount rounded to two decimals, within that tolerance.
\<close>

definition within_tolerance :: "jsnum \<Rightarrow> jsnum \<Rightarrow> bool" where
  "within_tolerance x y \<longleftrightarrow> js_le (js_abs (js_sub x y)) (mk False (1 / 10 ^ 9))"

definition sum_matches :: "calc \<Rightarrow> bool" where
  "sum_matches k \<longleftrightarrow> within_tolerance (js_add (aici k) (reste k)) (round_2dp (montant k))"

text \<open>The binary64 value of a decimal literal, for writing values such as \<open>0.01\<close>.\<close>

definition dbl :: "string \<Rightarrow> jsnum" where
  "dbl s = parseFloat (lit s)"

text \<open>
  The preview block of the specification: the total, the advance and the remainder under
  their labels, followed by the note that the calculation is simplified, as the markup the
  page shows for three given amount texts.
\<close>

definition preview_markup :: "jsstring \<Rightarrow> jsstring \<Rightarrow> jsstring \<Rightarrow> jsstring" where
  "preview_markup ttc avance charge =
     [0x0A] @ lit ''      <div><strong>Total TTC :</strong> '' @ ttc @ lit ''</div>'' @
     [0x0A] @ lit ''      <div><strong>Avance imm'' @ [0xE9] @
     lit ''diate (50%) :</strong> '' @ avance @ lit ''</div>'' @
     [0x0A] @ lit ''      <div><strong>Reste '' @ [0xE0] @
     lit '' charge client :</strong> '' @ charge @ lit ''</div>'' @
     [0x0A] @ lit ''      <small>Note : calcul d'' @ [0xE9] @ lit ''mo simplifi'' @ [0xE9] @
     lit '', sans plafonds ni cas particuliers.</small>'' @
     [0x0A] @ lit ''    ''"

text \<open>
  A text has a leading numeric prefix when, after leading white space and an optional
  sign, it starts with a digit, with a decimal point followed by a digit, or with the word
  \<open>Infinity\<close>. A rest cannot continue a run of digits when it is empty or starts with
  something other than a digit, a decimal point or an exponent mark.
\<close>

definition unsigned_prefix :: "jsstring \<Rightarrow> bool" where
  "unsigned_prefix u \<longleftrightarrow>
     take 8 u = lit ''Infinity'' \<or> (u \<noteq> [] \<and> is_digit (hd u)) \<or>
     (u \<noteq> [] \<and> hd u = 0x2E \<and> tl u \<noteq> [] \<and> is_digit (hd (tl u)))"

definition has_numeric_prefix :: "jsstring \<Rightarrow> bool" where
  "has_numeric_prefix s \<longleftrightarrow>
     (let t = trimStart s in
      t \<noteq> [] \<and> unsigned_prefix (if hd t = 0x2B \<or> hd t = 0x2D then tl t else t))"

definition ends_number :: "jsstring \<Rightarrow> bool" where
  "ends_number r \<longleftrightarrow>
     r = [] \<or> \<not> (is_digit (hd r) \<or> hd r = 0x2E \<or> hd r = 0x65 \<or> hd r = 0x45)"

text \<open>The markup of a table row with the given columns.\<close>

definition row_of_columns :: "jsstring list \<Rightarrow> jsstring" where
  "row_of_columns cols = concat (map (\<lambda>x. lit ''<td>'' @ x @ lit ''</td>'') cols)"

definition label_transmis :: jsstring where
  "label_transmis = lit ''Transmis (d'' @ [0xE9] @ lit ''mo)''"

definition label_regle :: jsstring where
  "label_regle = lit ''R'' @ [0xE9] @ lit ''gl'' @ [0xE9] @ lit '' (d'' @ [0xE9] @ lit ''mo)''"

text \<open>
  The current date in ISO form, in UTC and in the local time zone of the host, and the
  year of the current instant in UTC.
\<close>

definition utc_date :: "env \<Rightarrow> jsstring" where
  "utc_date env = iso_date (now env)"

definition local_date :: "env \<Rightarrow> jsstring" where
  "local_date env = iso_date (now env + LocalTZA env)"

definition utc_year :: "env \<Rightarrow> int" where
  "utc_year env = fst (civil_from_days (now env div msPerDay))"

text \<open>The page an invocation of the submit handler leaves, returned or thrown.\<close>

definition page_after :: "(js_error \<times> page) + page \<Rightarrow> page" where
  "page_after r = (case r of Inl (e, pg) \<Rightarrow> pg | Inr pg \<Rightarrow> pg)"

definition bottom_rows :: "nat \<Rightarrow> page \<Rightarrow> element list" where
  "bottom_rows n pg = drop (length (tbody pg) - n) (tbody pg)"

text \<open>The two demonstration rows of the specification, as markup.\<close>

definition demo_rows :: "env \<Rightarrow> element list" where
  "demo_rows env =
     [\<lparr>innerHTML = row_of_columns
         [lit ''2025-10-12'', lit ''Mme Dupont'', lit ''Entretien jardin'',
          format env (num 80), format env (js_mul (num 80) (num (1 / 2))), label_regle],
       classList = []\<rparr>,
      \<lparr>innerHTML = row_of_columns
         [lit ''2025-10-05'', lit ''M. Martin'', lit ''Bricolage l'' @ [0xE9] @ lit ''ger'',
          format env (num 120), format env (js_mul (num 120) (num (1 / 2))), label_regle],
       classList = []\<rparr>]"

text \<open>
  A host and a page for the closed examples. The formatter writes an amount in the style
  of the French locale: the magnitude rounded to two decimals (a tie going away from
  zero, on the exact value of the number; an implementation may round the shortest
  decimal digits of the number instead, which gives the same text for the amounts of the
  examples), the whole part in groups of three separated by a narrow no-break space, a
  decimal comma, and a no-break space before the euro sign. The instant is
  2025-10-12T22:30:00Z in a zone two hours ahead of UTC, and the form is filled in as in
  the example of the specification. The theorems hold for every host.
\<close>

fun decimal :: "nat \<Rightarrow> jsstring" where
  "decimal n =
     (if n < 10 then [of_nat (48 + n)]
      else decimal (n div 10) @ [of_nat (48 + n mod 10)])"

fun group3 :: "jsstring \<Rightarrow> jsstring" where
  "group3 ds =
     (if length ds \<le> 3 then ds
      else group3 (take (length ds - 3) ds) @ [0x202F] @ drop (length ds - 3) ds)"

definition fr_FR_EUR :: "jsnum \<Rightarrow> jsstring" where
  "fr_FR_EUR n =
     (case n of
        NaN \<Rightarrow> lit ''NaN''
      | Inf s \<Rightarrow> (if s then lit ''-'' else []) @ [0x221E]
      | Fin s q \<Rightarrow>
          (let c = nat \<lfloor>q * 100 + 1 / 2\<rfloor> in
           (if s then lit ''-'' else []) @ group3 (decimal (c div 100)) @ lit '','' @
           pad2 (int (c mod 100)))) @ [0xA0, 0x20AC]"

definition euros :: "string \<Rightarrow> jsstring" where
  "euros s = lit s @ [0xA0, 0x20AC]"

definition demo_host :: env where
  "demo_host = \<lparr>EURO_format = fr_FR_EUR, now = 1760308200000, LocalTZA = 7200000\<rparr>"

definition demo_page :: page where
  "demo_page =
     \<lparr>client_value = lit ''Mme Dupont'', prestation_value = lit ''Jardinage'',
      datePrest_value = lit ''2025-10-12'', montant_value = lit ''80'',
      calcZone = \<lparr>innerHTML = [], classList = [lit ''hidden'']\<rparr>,
      tbody = [], alerts = []\<rparr>"

section \<open>Shared lemmas\<close>

lemma positive_passes:
  "js_lt (num 0) A \<Longrightarrow> \<not> isNaN A \<and> \<not> js_le A (num 0) \<and> truthy A"
  by (cases A) (auto simp: num_def isNaN_def sval_def split: if_splits)

lemma negative_passes:
  "js_lt A (num 0) \<Longrightarrow> \<not> isNaN A \<and> js_le A (num 0) \<and> truthy A"
  by (cases A) (auto simp: num_def isNaN_def sval_def split: if_splits)

lemma compute_pos:
  assumes "js_lt (num 0) (amount pg)"
  shows "compute env pg =
    (Some (calc_of (amount pg)),
     pg\<lparr>calcZone := \<lparr>innerHTML = preview_markup (format env (amount pg))
               (format env (aici (calc_of (amount pg))))
               (format env (reste (calc_of (amount pg)))),
          classList = removeAll (lit ''hidden'') (classList (calcZone pg))\<rparr>\<rparr>)"
  using positive_passes[OF assms]
  by (simp add: compute_def amount_def Let_def round_2dp_def calc_of_def classList_remove_def
      preview_markup_def)

lemma compute_non_pos:
  assumes "isNaN (amount pg) \<or> js_le (amount pg) (num 0)"
  shows "compute env pg =
    (None, pg\<lparr>calcZone := classList_add (lit ''hidden'') (calcZone pg)\<rparr>)"
  using assms by (simp add: compute_def amount_def Let_def)

lemma hidden_classList_add:
  "hidden (pg\<lparr>calcZone := classList_add (lit ''hidden'') (calcZone pg)\<rparr>)"
  by (simp add: hidden_def classList_add_def)

lemma submit_reject:
  assumes "trim (client_value pg) = [] \<or> trim (prestation_value pg) = [] \<or>
           \<not> truthy (amount pg)"
  shows "submit env pg = Inr (pg\<lparr>alerts := alerts pg @ [msg_incomplete]\<rparr>)"
  using assms by (auto simp: submit_def amount_def Let_def alert_def)

lemma submit_throw:
  assumes "trim (client_value pg) \<noteq> []" and "trim (prestation_value pg) \<noteq> []"
    and "js_lt (amount pg) (num 0)"
  shows "submit env pg =
      Inl (TypeError, pg\<lparr>calcZone := classList_add (lit ''hidden'') (calcZone pg)\<rparr>)"
  using assms(1,2) negative_passes[OF assms(3)]
  by (simp add: submit_def amount_def Let_def compute_def)

lemma submit_ok:
  assumes "trim (client_value pg) \<noteq> []" and "trim (prestation_value pg) \<noteq> []"
    and "js_lt (num 0) (amount pg)"
  shows "submit env pg =
      Inr (pg\<lparr>client_value := [], prestation_value := [], datePrest_value := [],
              montant_value := [],
              calcZone := \<lparr>innerHTML = preview_markup (format env (amount pg))
                  (format env (aici (calc_of (amount pg))))
                  (format env (reste (calc_of (amount pg)))),
                classList =
                  removeAll (lit ''hidden'') (classList (calcZone pg)) @ [lit ''hidden'']\<rparr>,
              tbody := \<lparr>innerHTML = row_of_columns
                  [or_str (datePrest_value pg) (today env), trim (client_value pg),
                   trim (prestation_value pg), format env (amount pg),
                   format env (aici (calc_of (amount pg))), label_transmis],
                 classList = []\<rparr> # tbody pg,
              alerts := alerts pg @ [msg_transmitted]\<rparr>)"
  using assms(1,2) positive_passes[OF assms(3)]
  by (simp add: submit_def amount_def Let_def compute_def round_2dp_def calc_of_def
      row_of_columns_def label_transmis_def createElement_def form_reset_def alert_def
      classList_add_def classList_remove_def preview_markup_def lit_def)

lemma amount_of_text:
  "t \<noteq> [] \<Longrightarrow> amount (pg\<lparr>montant_value := lit t\<rparr>) = dbl t"
  by (simp add: amount_def dbl_def or_str_def lit_def)

lemma amount_of_value:
  "montant_value pg = lit t \<Longrightarrow> t \<noteq> [] \<Longrightarrow> amount pg = dbl t"
  by (simp add: amount_def dbl_def or_str_def lit_def)

lemma submit_tbody:
  "tbody (page_after (submit env q)) = tbody q \<or>
   (\<exists>r. tbody (page_after (submit env q)) = r # tbody q)"
  by (simp add: submit_def compute_def Let_def page_after_def alert_def form_reset_def
      classList_add_def classList_remove_def)

lemma bottom_rows_submit:
  assumes "2 \<le> length (tbody q)"
  shows "bottom_rows 2 (page_after (submit env q)) = bottom_rows 2 q"
proof -
  from assms have step: "length (tbody q) - Suc 0 = Suc (length (tbody q) - 2)"
    by arith
  from submit_tbody[of env q] show ?thesis
    by (auto simp: bottom_rows_def step)
qed

lemma load_tbody: "load env pg = pg\<lparr>tbody := tbody pg @ demo_rows env\<rparr>"
  by (simp add: load_def seed_def seed_tr_def createElement_def row_of_columns_def
      demo_rows_def label_regle_def Let_def lit_def)

lemma bottom_rows_load: "bottom_rows 2 (load env pg) = demo_rows env"
  by (simp add: load_tbody bottom_rows_def demo_rows_def)

lemma today_is_utc_date:
  assumes "0 \<le> utc_year env" and "utc_year env \<le> 9999"
  shows "today env = utc_date env"
    and "utc_date env =
      (case civil_from_days (now env div msPerDay) of
         (y, m, d) \<Rightarrow> pad4 y @ lit ''-'' @ pad2 m @ lit ''-'' @ pad2 d)"
  using assms
  by (cases "civil_from_days (now env div msPerDay)";
      simp add: today_def toISOString_def utc_date_def iso_date_def iso_year_def utc_year_def
        pad2_def pad3_def pad4_def lit_def)+

text \<open>What \<open>parseFloat\<close> reads: it fails exactly on the texts without a numeric prefix.\<close>

lemma mk_not_NaN: "mk s q \<noteq> NaN"
  by (simp add: mk_def split: option.splits)

lemma js_neg_NaN: "js_neg x = NaN \<longleftrightarrow> x = NaN"
  by (cases x) simp_all

lemma takeWhile_empty_hd: "takeWhile P u = [] \<longleftrightarrow> u = [] \<or> \<not> P (hd u)"
  by (cases u) simp_all

lemma dot_not_digit: "\<not> is_digit 0x2E"
  by (simp add: is_digit_def)

lemma str_unsigned_NaN: "str_unsigned u \<noteq> NaN \<longleftrightarrow> unsigned_prefix u"
proof (cases "take 8 u = lit ''Infinity''")
  case True
  then show ?thesis
    by (simp add: str_unsigned_def unsigned_prefix_def)
next
  case False
  show ?thesis
  proof (cases u)
    case Nil
    with False show ?thesis
      by (simp add: str_unsigned_def unsigned_prefix_def)
  next
    case (Cons c r)
    show ?thesis
    proof (cases "is_digit c")
      case True
      with False Cons show ?thesis
        by (simp add: str_unsigned_def unsigned_prefix_def Let_def mk_not_NaN)
    next
      case nd: False
      with False Cons show ?thesis
        by (auto simp: str_unsigned_def unsigned_prefix_def Let_def mk_not_NaN
            takeWhile_empty_hd)
    qed
  qed
qed

lemma parseFloat_NaN: "parseFloat s \<noteq> NaN \<longleftrightarrow> has_numeric_prefix s"
  by (cases "trimStart s")
    (simp_all add: parseFloat_def has_numeric_prefix_def Let_def js_neg_NaN
      str_unsigned_NaN)

lemma digit_not_ws: "is_digit c \<Longrightarrow> \<not> is_ws c \<and> c \<noteq> 0x2B \<and> c \<noteq> 0x2D \<and> c \<noteq> 0x49"
  by (auto simp: is_digit_def is_ws_def word_le_def)

lemma parseFloat_digits:
  assumes ds: "ds \<noteq> []" "list_all is_digit ds" and r: "ends_number r"
  shows "parseFloat (ds @ r) = mk False (of_int (digits_val ds))"
proof -
  from ds obtain c cs where c: "ds = c # cs" "is_digit c"
    by (cases ds) auto
  from ds(2) have all: "\<forall>x\<in>set ds. is_digit x"
    by (simp add: list_all_iff)
  from r have nd: "r = [] \<or> \<not> is_digit (hd r)"
    by (auto simp: ends_number_def)
  have tw: "takeWhile is_digit (ds @ r) = ds"
    using all nd by (cases r) (simp_all add: takeWhile_append2 takeWhile_eq_all_conv)
  have dw: "dropWhile is_digit (ds @ r) = r"
    using all nd by (cases r) (simp_all add: dropWhile_append2)
  have ex: "exponent_part r = 0"
    using r by (cases r) (auto simp: ends_number_def exponent_part_def)
  have nodot: "(r \<noteq> [] \<and> hd r = 0x2E) = False"
    using r by (auto simp: ends_number_def)
  have inf: "take 8 (ds @ r) \<noteq> lit ''Infinity''"
    using c digit_not_ws[OF c(2)] by (auto simp: lit_def)
  have "str_unsigned (ds @ r) = mk False (of_int (digits_val ds))"
    using inf ds(1) by (simp add: str_unsigned_def Let_def tw dw ex nodot)
  moreover have "trimStart (ds @ r) = ds @ r"
    using c digit_not_ws[OF c(2)] by (simp add: trimStart_def)
  ultimately show ?thesis
    using c digit_not_ws[OF c(2)] by (simp add: parseFloat_def)
qed

section \<open>The rounding of the arithmetic\<close>

text \<open>
  What \<open>fl_mag\<close> computes: the binary exponent brackets the magnitude; the result lies on
  the grid of the magnitude's binade (multiples of the spacing \<open>2^(e-52)\<close>, at most \<open>2^53\<close> of
  them) within half a spacing of the exact value; and a magnitude that is a binary64
  value already is returned as it is.
\<close>

lemma of_int_le_pow2: "k \<le> 2 ^ n \<Longrightarrow> (of_int k :: rat) \<le> 2 ^ n"
  by (metis of_int_le_iff of_int_numeral of_int_power)

lemma pow2_le_of_int: "2 ^ n \<le> k \<Longrightarrow> (2 ^ n :: rat) \<le> of_int k"
  by (metis of_int_le_iff of_int_numeral of_int_power)

lemma binexp_bounds:
  assumes "0 < q"
  shows "2 powi binexp q \<le> q" and "q < 2 powi (binexp q + 1)"
proof -
  have "2 powi binexp q \<le> q \<and> q < 2 powi (binexp q + 1)"
  proof (cases "1 \<le> q")
    case True
    define n where "n = \<lfloor>q\<rfloor>"
    have n: "of_int n \<le> q" "q < of_int n + 1"
      unfolding n_def by linarith+
    have "1 \<le> n"
      using True by (simp add: n_def le_floor_iff)
    then have "0 < n" by simp
    from bitlen_bounds[OF this] have b: "2 ^ nat (bitlen n - 1) \<le> n" "n + 1 \<le> 2 ^ nat (bitlen n)"
      by simp_all
    have b1: "1 \<le> bitlen n"
      using \<open>0 < n\<close> by (simp add: bitlen_alt_def)
    have e: "binexp q = bitlen n - 1"
      using True by (simp add: binexp_def n_def)
    have p: "(2::rat) powi (bitlen n - 1) = 2 ^ nat (bitlen n - 1)"
      "(2::rat) powi (bitlen n) = 2 ^ nat (bitlen n)"
      using b1 by (simp_all add: power_int_def)
    from pow2_le_of_int[OF b(1)] n(1) have "2 ^ nat (bitlen n - 1) \<le> q"
      by (rule order_trans)
    then have lo: "2 powi binexp q \<le> q"
      by (simp add: e p)
    from of_int_le_pow2[OF b(2)] have "of_int n + 1 \<le> (2::rat) ^ nat (bitlen n)"
      by simp
    with n(2) have "q < 2 ^ nat (bitlen n)"
      by (rule less_le_trans)
    then have hi: "q < 2 powi (binexp q + 1)"
      by (simp add: e p)
    from lo hi show ?thesis ..
  next
    case False
    define k where "k = \<lceil>1 / q\<rceil>"
    define m where "m = k - 1"
    have q1: "1 < 1 / q"
      using False assms by (simp add: field_simps)
    have k: "1 / q \<le> of_int k" "of_int k - 1 < 1 / q"
      unfolding k_def by linarith+
    have "0 < m"
      using q1 k(1) by (simp add: m_def)
    from bitlen_bounds[OF this] have b: "2 ^ nat (bitlen m - 1) \<le> m" "k \<le> 2 ^ nat (bitlen m)"
      by (simp_all add: m_def)
    have b1: "1 \<le> bitlen m"
      using \<open>0 < m\<close> by (simp add: bitlen_alt_def)
    have e: "binexp q = - bitlen m"
      using False by (simp add: binexp_def k_def m_def)
    from of_int_le_pow2[OF b(2)] k(1) have "1 / q \<le> 2 ^ nat (bitlen m)"
      by linarith
    then have "1 / 2 ^ nat (bitlen m) \<le> q"
      using assms by (simp add: field_simps)
    moreover have "(2::rat) powi (- bitlen m) = 1 / 2 ^ nat (bitlen m)"
      using b1 by (simp add: power_int_def field_simps)
    ultimately have lo: "2 powi binexp q \<le> q"
      by (simp add: e)
    from pow2_le_of_int[OF b(1)] have "(2::rat) ^ nat (bitlen m - 1) \<le> of_int k - 1"
      by (simp add: m_def)
    from this k(2) have "2 ^ nat (bitlen m - 1) < 1 / q"
      by (rule le_less_trans)
    then have "q < 1 / 2 ^ nat (bitlen m - 1)"
      using assms by (simp add: field_simps)
    moreover have "(2::rat) powi (- bitlen m + 1) = 1 / 2 ^ nat (bitlen m - 1)"
    proof (cases "bitlen m = 1")
      case True
      then show ?thesis by simp
    next
      case False
      with b1 have "- bitlen m + 1 < 0" "nat (bitlen m - 1) = nat (- (- bitlen m + 1))"
        by simp_all
      then show ?thesis
        by (simp add: power_int_def field_simps)
    qed
    ultimately have hi: "q < 2 powi (binexp q + 1)"
      by (simp add: e)
    from lo hi show ?thesis ..
  qed
  then show "2 powi binexp q \<le> q" and "q < 2 powi (binexp q + 1)"
    by simp_all
qed

lemma round_half_even_near: "\<bar>of_int (round_half_even t) - t\<bar> \<le> 1 / 2"
proof -
  have "of_int \<lfloor>t\<rfloor> \<le> t" "t < of_int \<lfloor>t\<rfloor> + 1"
    by linarith+
  then show ?thesis
    by (auto simp: round_half_even_def Let_def)
qed

lemma round_half_even_of_int: "round_half_even (of_int n) = n"
  by (simp add: round_half_even_def)

lemma round_half_even_range:
  assumes "0 \<le> t" and "t < of_int N"
  shows "0 \<le> round_half_even t" and "round_half_even t \<le> N"
proof -
  have "0 \<le> \<lfloor>t\<rfloor>" and "\<lfloor>t\<rfloor> < N"
    using assms by (simp_all add: floor_less_iff)
  then show "0 \<le> round_half_even t" and "round_half_even t \<le> N"
    by (auto simp: round_half_even_def Let_def)
qed

lemma fl_mag_nearest:
  assumes "0 < q" and "fl_mag q = Some r"
  shows "\<exists>n::int. 0 \<le> n \<and> n \<le> 2 ^ 53 \<and>
    r = of_int n * 2 powi (max (binexp q) (- 1022) - 52) \<and>
    \<bar>q - r\<bar> \<le> 2 powi (max (binexp q) (- 1022) - 52) / 2"
proof -
  define e where "e = max (binexp q) (- 1022)"
  define u :: rat where "u = 2 powi (e - 52)"
  define n where "n = round_half_even (q / u)"
  have u: "0 < u"
    by (simp add: u_def)
  have r: "r = of_int n * u"
    using assms by (auto simp: fl_mag_def Let_def e_def u_def n_def split: if_splits)
  have "q < 2 powi (binexp q + 1)"
    using assms(1) by (rule binexp_bounds)
  also have "\<dots> \<le> 2 powi (e + 1)"
    by (rule power_int_increasing) (simp_all add: e_def)
  also have "\<dots> = 2 powi (53 + (e - 52))"
    by (rule arg_cong[where f = "\<lambda>n. 2 powi n"]) simp
  also have "\<dots> = 2 powi 53 * u"
    unfolding u_def by (rule power_int_add) simp
  finally have "q / u < of_int (2 ^ 53)"
    using u by (simp add: field_simps)
  moreover have "0 \<le> q / u"
    using assms(1) u by simp
  ultimately have n: "0 \<le> n" "n \<le> 2 ^ 53"
    unfolding n_def by (rule round_half_even_range[rotated])+
  have "\<bar>of_int n - q / u\<bar> \<le> 1 / 2"
    unfolding n_def by (rule round_half_even_near)
  then have "\<bar>of_int n - q / u\<bar> * u \<le> 1 / 2 * u"
    using u by (intro mult_right_mono) simp_all
  also have "\<bar>of_int n - q / u\<bar> * u = \<bar>of_int n * u - q\<bar>"
    using u by (simp add: abs_mult_pos[symmetric] field_simps del: abs_mult_pos)
  finally have "\<bar>q - r\<bar> \<le> u / 2"
    by (simp add: r abs_minus_commute)
  with n r show ?thesis
    unfolding u_def e_def by blast
qed

lemma fl_mag_exact:
  assumes "0 < m" and "m < 2 ^ 53" and "- 1074 \<le> k"
    and "of_int m * 2 powi k < (2 ^ 1024 :: rat)"
  shows "fl_mag (of_int m * 2 powi k) = Some (of_int m * 2 powi k)"
proof -
  define q :: rat where "q = of_int m * 2 powi k"
  define e where "e = max (binexp q) (- 1022)"
  have q: "0 < q"
    using assms(1) by (simp add: q_def)
  have "e - 52 \<le> k"
  proof (cases "binexp q \<le> - 1022")
    case True
    then show ?thesis
      using assms(3) by (simp add: e_def)
  next
    case False
    have "2 powi binexp q \<le> q"
      using q by (rule binexp_bounds)
    also have "q < 2 ^ 53 * 2 powi k"
      unfolding q_def using assms(2) by (simp add: of_int_less_iff[symmetric] del: of_int_less_iff)
    also have "\<dots> = 2 powi (53 + k)"
      by (subst power_int_add) simp_all
    finally have lt: "(2::rat) powi binexp q < 2 powi (53 + k)" .
    have "binexp q < 53 + k"
    proof (rule ccontr)
      assume "\<not> binexp q < 53 + k"
      then have "53 + k \<le> binexp q"
        by simp
      then have "(2::rat) powi (53 + k) \<le> 2 powi binexp q"
        by (rule power_int_increasing) simp
      with lt show False
        by simp
    qed
    with False show ?thesis
      by (simp add: e_def)
  qed
  then obtain d where d: "k = (e - 52) + int d"
    by (metis add.commute le_iff_add nonneg_int_cases zle_iff_zadd)
  have "q / 2 powi (e - 52) = of_int (m * 2 ^ d)"
    unfolding q_def d by (subst power_int_add) simp_all
  then have "of_int (round_half_even (q / 2 powi (e - 52))) * 2 powi (e - 52) = q"
    by (simp only: round_half_even_of_int) (simp add: q_def d power_int_add)
  moreover have "q \<noteq> 0"
    using q by simp
  ultimately show ?thesis
    using assms(4) by (simp add: fl_mag_def Let_def q_def[symmetric] e_def[symmetric])
qed

text \<open>
  An absolute error bound: a magnitude below \<open>2^E\<close> is rounded with an error of at most
  \<open>2^(E-54)\<close>, and does not overflow.
\<close>

lemma powi_less_imp_less:
  assumes "(2::rat) powi a < 2 powi b"
  shows "a < b"
proof (rule ccontr)
  assume "\<not> a < b"
  then have "b \<le> a"
    by simp
  then have "(2::rat) powi b \<le> 2 powi a"
    by (rule power_int_increasing) simp
  with assms show False
    by simp
qed

lemma fl_mag_error:
  assumes "0 \<le> q" and "q < 2 powi E" and "- 1021 \<le> E" and "E \<le> 1023"
  shows "\<exists>r. fl_mag q = Some r \<and> 0 \<le> r \<and> \<bar>r - q\<bar> \<le> 2 powi (E - 54)"
proof (cases "q = 0")
  case True
  then show ?thesis
    by (simp add: fl_mag_def)
next
  case False
  with assms(1) have q: "0 < q"
    by simp
  define e where "e = max (binexp q) (- 1022)"
  define u :: rat where "u = 2 powi (e - 52)"
  define n where "n = round_half_even (q / u)"
  have u: "0 < u"
    by (simp add: u_def)
  have "2 powi binexp q \<le> q"
    using q by (rule binexp_bounds)
  with assms(2) have "(2::rat) powi binexp q < 2 powi E"
    by simp
  then have "binexp q < E"
    by (rule powi_less_imp_less)
  with assms(3) have e: "e \<le> E - 1"
    by (simp add: e_def)
  have half: "u / 2 = 2 powi (e - 53)"
  proof -
    have "(2::rat) powi (e - 52) = 2 powi ((e - 53) + 1)"
      by (rule arg_cong[where f = "\<lambda>n. 2 powi n"]) simp
    also have "\<dots> = 2 powi (e - 53) * 2 powi 1"
      by (rule power_int_add) simp
    finally show ?thesis
      by (simp add: u_def)
  qed
  have "(2::rat) powi (e - 53) \<le> 2 powi (E - 54)"
    using e by (intro power_int_increasing) simp_all
  with half have small: "u / 2 \<le> 2 powi (E - 54)"
    by simp
  have "\<bar>of_int n - q / u\<bar> \<le> 1 / 2"
    unfolding n_def by (rule round_half_even_near)
  then have "\<bar>of_int n - q / u\<bar> * u \<le> 1 / 2 * u"
    using u by (intro mult_right_mono) simp_all
  also have "\<bar>of_int n - q / u\<bar> * u = \<bar>of_int n * u - q\<bar>"
    using u by (simp add: abs_mult_pos[symmetric] field_simps del: abs_mult_pos)
  finally have near: "\<bar>of_int n * u - q\<bar> \<le> u / 2"
    by simp
  have "0 \<le> q / u"
    using q u by simp
  then have "0 \<le> \<lfloor>q / u\<rfloor>"
    by simp
  then have "0 \<le> n"
    by (auto simp: n_def round_half_even_def Let_def)
  then have nonneg: "0 \<le> of_int n * u"
    using u by simp
  have "(2::rat) powi E \<le> 2 powi 1023"
    using assms(4) by (intro power_int_increasing) simp_all
  moreover have "(2::rat) powi (E - 54) \<le> 2 powi 969"
    using assms(4) by (intro power_int_increasing) simp_all
  moreover have "(2::rat) powi 1023 + 2 powi 969 \<le> 2 ^ 1024"
    by simp
  moreover have "of_int n * u \<le> q + u / 2"
    using near by linarith
  ultimately have "of_int n * u < 2 ^ 1024"
    using small assms(2) by linarith
  then have "fl_mag q = Some (of_int n * u)"
    using False by (simp add: fl_mag_def Let_def e_def[symmetric] u_def[symmetric] n_def[symmetric])
  with near small nonneg show ?thesis
    by auto
qed

lemma mk_error:
  assumes "0 \<le> q" and "q < 2 powi E" and "- 1021 \<le> E" and "E \<le> 1023"
  shows "\<exists>r. mk False q = Fin False r \<and> fl_mag q = Some r \<and> 0 \<le> r \<and>
    \<bar>r - q\<bar> \<le> 2 powi (E - 54)"
  using fl_mag_error[OF assms] by (auto simp: mk_def)

lemma mk_error_20:
  assumes "0 \<le> q" and "q < 1048576"
  shows "\<exists>r. mk False q = Fin False r \<and> fl_mag q = Some r \<and> 0 \<le> r \<and>
    \<bar>r - q\<bar> \<le> 1 / 17179869184"
  using mk_error[of q 20] assms by simp

lemma mk_error_27:
  assumes "0 \<le> q" and "q < 134217728"
  shows "\<exists>r. mk False q = Fin False r \<and> fl_mag q = Some r \<and> 0 \<le> r \<and>
    \<bar>r - q\<bar> \<le> 1 / 134217728"
  using mk_error[of q 27] assms by simp

text \<open>The operations on values that are not negative.\<close>

lemma Math_round_nonneg:
  assumes "0 \<le> q"
  shows "Math_round (Fin False q) = Fin False (of_int \<lfloor>q + 1 / 2\<rfloor>)"
proof -
  have "0 \<le> \<lfloor>q + 1 / 2\<rfloor>"
    using assms by simp
  then show ?thesis
    by (simp add: sval_def Let_def)
qed

lemma js_sub_nonneg:
  assumes "b \<le> a" and "fl_mag (a - b) = Some d"
  shows "js_sub (Fin False a) (Fin False b) = Fin False d"
proof (cases "a = b")
  case True
  with assms(2) have "d = 0"
    by (simp add: fl_mag_def)
  with True show ?thesis
    by (simp add: js_sub_def sval_def)
next
  case False
  with assms show ?thesis
    by (simp add: js_sub_def sval_def mk_def)
qed

lemma js_add_nonneg:
  assumes "0 \<le> a" and "0 \<le> b" and "fl_mag (a + b) = Some d"
  shows "js_add (Fin False a) (Fin False b) = Fin False d"
proof (cases "a + b = 0")
  case True
  with assms(3) have "d = 0"
    by (simp add: fl_mag_def)
  with True show ?thesis
    by (simp add: sval_def)
next
  case False
  with assms show ?thesis
    by (simp add: sval_def mk_def)
qed

text \<open>
  Away from a tie the rounding of the script is rounding half up at two decimals: the
  hundredfold is off by at most \<open>2\<^sup>-\<^sup>2\<^sup>7\<close>, which does not move it across a \<open>k + 1/2\<close>.
\<close>

lemma round_2dp_half_up:
  assumes v0: "0 \<le> v" and v1: "v < 1048576" and far: "far_from_tie v"
  shows "round_2dp (Fin False v) = mk False (half_up_2dp v)"
proof -
  have "0 \<le> v * 100" "v * 100 < 134217728"
    using v0 v1 by linarith+
  from mk_error_27[OF this] obtain p where P: "mk False (v * 100) = Fin False p"
    and p0: "0 \<le> p" and ep: "\<bar>p - v * 100\<bar> \<le> 1 / 134217728"
    by auto
  define j where "j = \<lfloor>v * 100\<rfloor>"
  have j: "of_int j \<le> v * 100" "v * 100 < of_int j + 1"
    unfolding j_def by linarith+
  from far have f: "1 / 67108864 < \<bar>v * 100 - of_int j - 1 / 2\<bar>"
    by (simp add: far_from_tie_def j_def)
  have "\<lfloor>p + 1 / 2\<rfloor> = \<lfloor>v * 100 + 1 / 2\<rfloor>"
  proof (cases "v * 100 - of_int j < 1 / 2")
    case True
    with j f ep have "\<lfloor>p + 1 / 2\<rfloor> = j" "\<lfloor>v * 100 + 1 / 2\<rfloor> = j"
      by linarith+
    then show ?thesis
      by simp
  next
    case False
    with j f ep have "\<lfloor>p + 1 / 2\<rfloor> = j + 1" "\<lfloor>v * 100 + 1 / 2\<rfloor> = j + 1"
      by linarith+
    then show ?thesis
      by simp
  qed
  moreover have "js_mul (Fin False v) (num 100) = Fin False p"
    using P by (simp add: num_def)
  ultimately show ?thesis
    using Math_round_nonneg[OF p0]
    by (simp add: round_2dp_def half_up_2dp_def num_def del: Math_round.simps)
qed

section \<open>Evaluation\<close>

text \<open>
  Rounding a quotient of numerals, and the rewrite rules that evaluate the arithmetic and
  \<open>parseFloat\<close> on literals.
\<close>

lemma floor_rat_numeral [simp]:
  "\<lfloor>numeral a / numeral b :: rat\<rfloor> = numeral a div numeral b"
  using floor_divide_of_int_eq[of "numeral a" "numeral b", where ?'a = rat] by simp

lemma floor_rat_neg_numeral [simp]:
  "\<lfloor>- (numeral a / numeral b) :: rat\<rfloor> = (- numeral a) div numeral b"
  using floor_divide_of_int_eq[of "- numeral a" "numeral b", where ?'a = rat] by simp

lemma floor_rat_one_div [simp]: "\<lfloor>1 / numeral b :: rat\<rfloor> = 1 div numeral b"
  using floor_divide_of_int_eq[of 1 "numeral b", where ?'a = rat] by simp

lemma ceiling_rat_numeral [simp]:
  "\<lceil>numeral a / numeral b :: rat\<rceil> = - ((- numeral a) div numeral b)"
  using ceiling_divide_eq_div[of "numeral a" "numeral b", where ?'a = rat] by simp

lemmas fl_eval =
  mk_def fl_mag_def binexp_def round_half_even_def Let_def bitlen_def
  compute_floorlog sval_def js_sub_def num_def

lemmas parse_eval =
  dbl_def parseFloat_def trimStart_def is_ws_def str_unsigned_def is_digit_def
  digits_val_def exponent_part_def lit_def

lemma dbl_whole:
  "dbl ''80'' = num 80" "dbl ''120'' = num 120" "dbl ''1000000'' = num 1000000"
  "dbl ''0'' = num 0" "dbl ''80abc'' = num 80"
  by (simp_all add: fl_eval parse_eval)

lemma listed_amounts:
  "dbl ''80'' = mk False (of_int 8000 / 100)" "dbl ''120'' = mk False (of_int 12000 / 100)"
  "dbl ''0.01'' = mk False (of_int 1 / 100)" "dbl ''99.99'' = mk False (of_int 9999 / 100)"
  "dbl ''1000000'' = mk False (of_int 100000000 / 100)"
  by (simp_all add: parse_eval)

lemma dbl_other:
  "dbl ''-5'' = Fin True 5" "dbl ''-12.5'' = Fin True (25 / 2)" "dbl ''abc'' = NaN"
  by (simp_all add: fl_eval parse_eval)

lemma dbl_0_01: "dbl ''0.01'' = Fin False (5764607523034235 / 576460752303423488)"
  by (simp add: fl_eval parse_eval)

lemma dbl_0_015: "dbl ''0.015'' = Fin False (1080863910568919 / 72057594037927936)"
  by (simp add: fl_eval parse_eval)

lemma dbl_0_02: "dbl ''0.02'' = Fin False (5764607523034235 / 288230376151711744)"
  by (simp add: fl_eval parse_eval)

lemma dbl_49_99: "dbl ''49.99'' = Fin False (7035467042882847 / 140737488355328)"
  by (simp add: fl_eval parse_eval)

lemma dbl_99_99: "dbl ''99.99'' = Fin False (7036170730324623 / 70368744177664)"
  by (simp add: fl_eval parse_eval)

lemma dbl_99_99_up:
  "dbl ''99.99000000000001'' = Fin False (439760670645289 / 4398046511104)"
  by (simp add: fl_eval parse_eval)

text \<open>
  Two well-known facts of binary64 arithmetic, as a check of the model: \<open>0.1 + 0.2\<close> is
  \<open>0.30000000000000004\<close>, and \<open>1.005 * 100\<close> is \<open>100.49999999999999\<close>.
\<close>

lemma dbl_0_1: "dbl ''0.1'' = Fin False (3602879701896397 / 36028797018963968)"
  by (simp add: fl_eval parse_eval)

lemma dbl_0_2: "dbl ''0.2'' = Fin False (3602879701896397 / 18014398509481984)"
  by (simp add: fl_eval parse_eval)

lemma dbl_0_3_up: "dbl ''0.30000000000000004'' = Fin False (1351079888211149 / 4503599627370496)"
  by (simp add: fl_eval parse_eval)

lemma dbl_1_005: "dbl ''1.005'' = Fin False (1131529406376837 / 1125899906842624)"
  by (simp add: fl_eval parse_eval)

lemma dbl_100_5_down:
  "dbl ''100.49999999999999'' = Fin False (7072058789855231 / 70368744177664)"
  by (simp add: fl_eval parse_eval)

lemma binary64_examples:
  "js_add (dbl ''0.1'') (dbl ''0.2'') = dbl ''0.30000000000000004''"
  "js_mul (dbl ''1.005'') (num 100) = dbl ''100.49999999999999''"
  by (simp_all add: dbl_0_1 dbl_0_2 dbl_0_3_up dbl_1_005 dbl_100_5_down fl_eval)

lemma tolerance_value:
  "mk False (1 / 10 ^ 9) = Fin False (4835703278458517 / 4835703278458516698824704)"
  by (simp add: fl_eval)

text \<open>
  \<open>Math.round\<close> rounds half up: its result is the integer \<open>k\<close> with
  \<open>k - 1/2 \<le> x < k + 1/2\<close>.
\<close>

lemma Math_round_half_up:
  assumes "Math_round (Fin s q) = Fin s' q'"
  shows "\<exists>k::int. sval s' q' = of_int k \<and> of_int k - 1 / 2 \<le> sval s q \<and>
    sval s q < of_int k + 1 / 2"
proof -
  let ?k = "\<lfloor>sval s q + 1 / 2\<rfloor>"
  from assms have "sval s' q' = of_int ?k"
    by (auto simp: Let_def sval_def split: if_splits)
  moreover have "of_int ?k \<le> sval s q + 1 / 2" and "sval s q + 1 / 2 < of_int ?k + 1"
    by linarith+
  ultimately show ?thesis
    by (intro exI[of _ ?k]) (simp add: algebra_simps)
qed

text \<open>
  The rounding to two decimals acts on the binary64 product \<open>x * 100\<close>: for the amount
  text \<open>2.01\<close> the advance is 1 and the remainder 1.01.
\<close>

lemma dbl_2_01: "dbl ''2.01'' = Fin False (1131529406376837 / 562949953421312)"
  by (simp add: fl_eval parse_eval)

lemma dbl_1_01: "dbl ''1.01'' = Fin False (4548635623644201 / 4503599627370496)"
  by (simp add: fl_eval parse_eval)

lemma split_2_01:
  "round_2dp (js_mul (dbl ''2.01'') (num (1 / 2))) = num 1"
  "round_2dp (js_sub (dbl ''2.01'') (num 1)) = dbl ''1.01''"
  by (simp_all add: dbl_2_01 dbl_1_01 round_2dp_def fl_eval)

lemma split_80:
  "round_2dp (js_mul (num 80) (num (1 / 2))) = num 40"
  "round_2dp (js_sub (num 80) (num 40)) = num 40"
  by (simp_all add: round_2dp_def fl_eval)

lemma split_120:
  "round_2dp (js_mul (num 120) (num (1 / 2))) = num 60"
  "round_2dp (js_sub (num 120) (num 60)) = num 60"
  by (simp_all add: round_2dp_def fl_eval)

lemma split_1000000:
  "round_2dp (js_mul (num 1000000) (num (1 / 2))) = num 500000"
  "round_2dp (js_sub (num 1000000) (num 500000)) = num 500000"
  by (simp_all add: round_2dp_def fl_eval)

lemma split_0_01:
  "round_2dp (js_mul (dbl ''0.01'') (num (1 / 2))) = dbl ''0.01''"
  "round_2dp (js_sub (dbl ''0.01'') (dbl ''0.01'')) = num 0"
  by (simp_all add: dbl_0_01 round_2dp_def fl_eval)

lemma split_0_015:
  "round_2dp (js_mul (dbl ''0.015'') (num (1 / 2))) = dbl ''0.01''"
  "round_2dp (js_sub (dbl ''0.015'') (dbl ''0.01'')) = num 0"
  by (simp_all add: dbl_0_015 dbl_0_01 round_2dp_def fl_eval)

lemma split_99_99:
  "round_2dp (js_mul (dbl ''99.99'') (num (1 / 2))) = num 50"
  "round_2dp (js_sub (dbl ''99.99'') (num 50)) = dbl ''49.99''"
  by (simp_all add: dbl_99_99 dbl_49_99 round_2dp_def fl_eval)

lemmas splits = split_80 split_120 split_1000000 split_0_01 split_0_015 split_99_99

lemma round_2dp_values:
  "round_2dp (num 80) = num 80" "round_2dp (num 120) = num 120"
  "round_2dp (num 1000000) = num 1000000" "round_2dp (dbl ''0.01'') = dbl ''0.01''"
  "round_2dp (dbl ''99.99'') = dbl ''99.99''" "round_2dp (dbl ''0.015'') = dbl ''0.02''"
  by (simp_all add: dbl_0_01 dbl_99_99 dbl_0_015 dbl_0_02 round_2dp_def fl_eval)

lemma sums:
  "js_add (num 40) (num 40) = num 80" "js_add (num 60) (num 60) = num 120"
  "js_add (num 500000) (num 500000) = num 1000000"
  "js_add (dbl ''0.01'') (num 0) = dbl ''0.01''"
  "js_add (num 50) (dbl ''49.99'') = dbl ''99.99000000000001''"
  by (simp_all add: dbl_0_01 dbl_49_99 dbl_99_99_up fl_eval)

lemma within_tolerance_refl_fin: "within_tolerance (Fin s q) (Fin s q)"
  by (simp add: within_tolerance_def tolerance_value fl_eval)

lemma within_tolerance_num: "within_tolerance (num q) (num q)"
  by (simp add: num_def within_tolerance_refl_fin)

lemma within_tolerance_0_01: "within_tolerance (dbl ''0.01'') (dbl ''0.01'')"
  by (simp add: dbl_0_01 within_tolerance_refl_fin)

lemma within_tolerance_99_99: "within_tolerance (dbl ''99.99000000000001'') (dbl ''99.99'')"
  by (simp add: dbl_99_99 dbl_99_99_up within_tolerance_def tolerance_value fl_eval)

lemma not_within_tolerance_0_01_0_02: "\<not> within_tolerance (dbl ''0.01'') (dbl ''0.02'')"
  by (simp add: dbl_0_01 dbl_0_02 within_tolerance_def tolerance_value fl_eval)

lemma positive_values:
  "js_lt (num 0) (num 80)" "js_lt (num 0) (num 120)" "js_lt (num 0) (num 1000000)"
  "js_lt (num 0) (dbl ''0.01'')" "js_lt (num 0) (dbl ''99.99'')"
  "js_lt (num 0) (dbl ''0.015'')"
  by (simp_all add: dbl_0_01 dbl_99_99 dbl_0_015 num_def sval_def)

lemma negative_values: "js_lt (dbl ''-5'') (num 0)" "js_lt (dbl ''-12.5'') (num 0)"
  by (simp_all add: dbl_other num_def sval_def)

lemma seed_advances:
  "js_mul (num 80) (num (1 / 2)) = num 40" "js_mul (num 120) (num (1 / 2)) = num 60"
  by (simp_all add: fl_eval)

lemma trim_values:
  "trim (lit ''Mme Dupont'') = lit ''Mme Dupont''" "trim (lit ''Jardinage'') = lit ''Jardinage''"
  "trim (lit ''  '') = []"
  by (simp_all add: trim_def is_ws_def lit_def)

lemma trim_nonempty:
  "trim (lit ''Mme Dupont'') \<noteq> []" "trim (lit ''Jardinage'') \<noteq> []"
  by (simp_all add: trim_def is_ws_def lit_def)

lemma demo_fields:
  "client_value demo_page = lit ''Mme Dupont''" "prestation_value demo_page = lit ''Jardinage''"
  "datePrest_value demo_page = lit ''2025-10-12''" "montant_value demo_page = lit ''80''"
  "calcZone demo_page = \<lparr>innerHTML = [], classList = [lit ''hidden'']\<rparr>"
  "tbody demo_page = []" "alerts demo_page = []"
  by (simp_all add: demo_page_def)

lemma demo_already_hidden:
  "classList_add (lit ''hidden'') \<lparr>innerHTML = [], classList = [lit ''hidden'']\<rparr> =
     \<lparr>innerHTML = [], classList = [lit ''hidden'']\<rparr>"
  "demo_page\<lparr>montant_value := t,
     calcZone := \<lparr>innerHTML = [], classList = [lit ''hidden'']\<rparr>\<rparr> =
   demo_page\<lparr>montant_value := t\<rparr>"
  by (simp_all add: demo_page_def classList_add_def)

lemma format_demo:
  "format demo_host (num 80) = euros ''80,00''" "format demo_host (num 40) = euros ''40,00''"
  "format demo_host (num 120) = euros ''120,00''" "format demo_host (num 60) = euros ''60,00''"
  by (simp_all add: format_def demo_host_def fr_FR_EUR_def euros_def num_def pad2_def
      digit_char_def lit_def)

lemma demo_dates:
  "today demo_host = lit ''2025-10-12''" "utc_date demo_host = lit ''2025-10-12''"
  "local_date demo_host = lit ''2025-10-13''" "utc_year demo_host = 2025"
  by (simp_all add: today_def utc_date_def local_date_def utc_year_def demo_host_def
      toISOString_def iso_date_def iso_time_def iso_year_def civil_from_days_def
      civil_of_era_day_def civil_of_era_year_def civil_of_year_day_def civil_of_month_def
      msPerDay_def pad2_def pad3_def pad4_def digit_char_def Let_def lit_def)

text \<open>Amounts at and away from a tie of the rounding.\<close>

lemma dbl_0_03: "dbl ''0.03'' = Fin False (1080863910568919 / 36028797018963968)"
  by (simp add: fl_eval parse_eval)

lemma dbl_10_017: "dbl ''10.017'' = Fin False (2819534841710641 / 281474976710656)"
  by (simp add: fl_eval parse_eval)

lemma dbl_5_01: "dbl ''5.01'' = Fin False (2820379266640773 / 562949953421312)"
  by (simp add: fl_eval parse_eval)

lemma dbl_0abc: "dbl ''0abc'' = num 0"
  by (simp add: fl_eval parse_eval)

lemma half_0_03:
  "js_mul (dbl ''0.03'') (num (1 / 2)) = Fin False (1080863910568919 / 72057594037927936)"
  by (simp add: dbl_0_03 fl_eval)

lemma split_0_03:
  "round_2dp (js_mul (dbl ''0.03'') (num (1 / 2))) = dbl ''0.02''"
  "round_2dp (js_sub (dbl ''0.03'') (dbl ''0.02'')) = dbl ''0.01''"
  by (simp_all add: dbl_0_03 dbl_0_02 dbl_0_01 round_2dp_def fl_eval)

lemma half_10_017:
  "js_mul (dbl ''10.017'') (num (1 / 2)) = Fin False (2819534841710641 / 562949953421312)"
  by (simp add: dbl_10_017 fl_eval)

lemma diff_10_017:
  "js_sub (dbl ''10.017'') (dbl ''5.01'') = Fin False (2818690416780509 / 562949953421312)"
  by (simp add: dbl_10_017 dbl_5_01 fl_eval)

lemma split_10_017:
  "round_2dp (js_mul (dbl ''10.017'') (num (1 / 2))) = dbl ''5.01''"
  "round_2dp (js_sub (dbl ''10.017'') (dbl ''5.01'')) = dbl ''5.01''"
  by (simp_all add: dbl_10_017 dbl_5_01 round_2dp_def fl_eval)

lemma half_up_values:
  "half_up_2dp (201 / 100 * (1 / 2)) = 101 / 100"
  "half_up_2dp (3 / 100 * (1 / 2)) = 2 / 100"
  "half_up_2dp (1131529406376837 / 1125899906842624) = 100 / 100"
  "half_up_2dp (1080863910568919 / 72057594037927936) = 1 / 100"
  "half_up_2dp (2819534841710641 / 562949953421312) = 501 / 100"
  "half_up_2dp (2818690416780509 / 562949953421312) = 501 / 100"
  by (simp_all add: half_up_2dp_def)

lemma far_from_tie_values:
  "far_from_tie (2819534841710641 / 562949953421312)"
  "far_from_tie (2818690416780509 / 562949953421312)"
  "\<not> far_from_tie (1080863910568919 / 72057594037927936)"
  "\<not> far_from_tie (1131529406376837 / 1125899906842624)"
  by (simp_all add: far_from_tie_def)

lemma nearest_values:
  "mk False (201 / 100) = dbl ''2.01''" "mk False (101 / 100) = dbl ''1.01''"
  "mk False (3 / 100) = dbl ''0.03''" "mk False (2 / 100) = dbl ''0.02''"
  "mk False (1 / 100) = dbl ''0.01''" "mk False (501 / 100) = dbl ''5.01''"
  by (simp_all add: dbl_2_01 dbl_1_01 dbl_0_03 dbl_0_02 dbl_0_01 dbl_5_01 fl_eval)

lemma positive_values_2:
  "js_lt (num 0) (dbl ''0.03'')" "js_lt (num 0) (dbl ''2.01'')"
  "js_lt (num 0) (dbl ''10.017'')"
  by (simp_all add: dbl_0_03 dbl_2_01 dbl_10_017 num_def sval_def)

lemma distinct_values:
  "num 1 \<noteq> dbl ''1.01''" "dbl ''0.02'' \<noteq> dbl ''0.01''"
  by (simp_all add: dbl_1_01 dbl_0_02 dbl_0_01 num_def)

lemma format_demo_2:
  "format demo_host (dbl ''10.017'') = euros ''10,02''"
  "format demo_host (dbl ''5.01'') = euros ''5,01''"
  by (simp_all add: dbl_10_017 dbl_5_01 format_def demo_host_def fr_FR_EUR_def euros_def
      pad2_def digit_char_def lit_def)

lemma prefix_examples:
  "has_numeric_prefix (lit ''0abc'')" "\<not> has_numeric_prefix (lit ''abc'')"
  "lit ''80'' \<noteq> []" "list_all is_digit (lit ''80'')" "ends_number (lit ''abc'')"
  "lit ''80'' @ lit ''abc'' = lit ''80abc''"
  "mk False (of_int (digits_val (lit ''80''))) = num 80"
  by (simp_all add: has_numeric_prefix_def unsigned_prefix_def ends_number_def trimStart_def
      is_ws_def is_digit_def digits_val_def Let_def lit_def fl_eval)

section \<open>The rounding identity for amounts of two decimals\<close>

text \<open>
  For a whole number of cents \<open>c\<close> from 1 to \<open>10^8\<close> and the amount \<open>A\<close> nearest to
  \<open>c / 100\<close>: the product \<open>A * 0.5 * 100\<close> is within \<open>2 * 10^-8\<close> of \<open>c / 2\<close>, so
  \<open>Math.round\<close> gives a whole number \<open>K1\<close> with \<open>c - 1 \<le> 2 * K1 \<le> c + 1\<close>; the product
  \<open>(A - advance) * 100\<close> is within \<open>3 * 10^-8\<close> of \<open>c - K1\<close>, which \<open>Math.round\<close> gives; the
  amount rounded to two decimals is \<open>A\<close> itself; and the sum of advance and remainder
  is within \<open>2^-32\<close> of \<open>A\<close>.
\<close>

lemma two_decimal_amount:
  fixes c :: int
  assumes c: "1 \<le> c" "c \<le> 100000000"
  shows "js_lt (num 0) (mk False (of_int c / 100)) \<and>
    sum_matches (calc_of (mk False (of_int c / 100)))"
proof -
  define x :: rat where "x = of_int c / 100"
  have cx: "1 \<le> (of_int c :: rat)" "(of_int c :: rat) \<le> 100000000"
    using c by simp_all
  have x: "1 / 100 \<le> x" "x \<le> 1000000" "of_int c = 100 * x"
    using cx by (simp_all add: x_def)
  \<comment> \<open>the amount\<close>
  have "0 \<le> x" "x < 1048576"
    using x by simp_all
  from mk_error_20[OF this] obtain a where A: "mk False x = Fin False a"
    and fa: "fl_mag x = Some a" and a0: "0 \<le> a" and ea: "\<bar>a - x\<bar> \<le> 1 / 17179869184"
    by auto
  \<comment> \<open>\<open>montant * 0.5 * 100\<close>\<close>
  have "0 \<le> a / 2" "a / 2 < 1048576"
    using a0 ea x by linarith+
  from mk_error_20[OF this] obtain h where H: "mk False (a / 2) = Fin False h"
    and h0: "0 \<le> h" and eh: "\<bar>h - a / 2\<bar> \<le> 1 / 17179869184"
    by auto
  have "0 \<le> h * 100" "h * 100 < 134217728"
    using h0 eh ea x by linarith+
  from mk_error_27[OF this] obtain p where P: "mk False (h * 100) = Fin False p"
    and p0: "0 \<le> p" and ep: "\<bar>p - h * 100\<bar> \<le> 1 / 134217728"
    by auto
  define K1 where "K1 = \<lfloor>p + 1 / 2\<rfloor>"
  have k1: "of_int K1 \<le> p + 1 / 2" "p + 1 / 2 < of_int K1 + 1"
    unfolding K1_def by linarith+
  have "0 \<le> K1"
    using p0 by (simp add: K1_def)
  then have K10: "(0::rat) \<le> of_int K1"
    by simp
  have "2 * (of_int K1 :: rat) < of_int c + 2"
    using k1 ep eh ea x by linarith
  then have "(of_int (2 * K1) :: rat) < of_int (c + 2)"
    by simp
  moreover have "(of_int c :: rat) < 2 * of_int K1 + 2"
    using k1 ep eh ea x by linarith
  then have "(of_int c :: rat) < of_int (2 * K1 + 2)"
    by simp
  ultimately have K1i: "2 * K1 < c + 2" "c < 2 * K1 + 2"
    by (simp_all only: of_int_less_iff)
  have K1c: "2 * (of_int K1 :: rat) \<le> of_int c + 1" "(of_int c :: rat) - 1 \<le> 2 * of_int K1"
  proof -
    from K1i have "2 * K1 \<le> c + 1" "c - 1 \<le> 2 * K1"
      by simp_all
    then have "(of_int (2 * K1) :: rat) \<le> of_int (c + 1)" "(of_int (c - 1) :: rat) \<le> of_int (2 * K1)"
      by (simp_all only: of_int_le_iff)
    then show "2 * (of_int K1 :: rat) \<le> of_int c + 1" "(of_int c :: rat) - 1 \<le> 2 * of_int K1"
      by simp_all
  qed
  \<comment> \<open>the advance\<close>
  have "(0::rat) \<le> of_int K1 / 100" "(of_int K1 :: rat) / 100 < 1048576"
    using K10 K1c x by simp_all
  from mk_error_20[OF this] obtain ai where AI: "mk False (of_int K1 / 100) = Fin False ai"
    and fai: "fl_mag (of_int K1 / 100) = Some ai" and ai0: "0 \<le> ai"
    and eai: "\<bar>ai - of_int K1 / 100\<bar> \<le> 1 / 17179869184"
    by auto
  define K2 where "K2 = c - K1"
  have K2: "(of_int K2 :: rat) = of_int c - of_int K1"
    by (simp add: K2_def)
  have K20: "0 \<le> K2"
    using K1i c by (simp add: K2_def)
  have le: "ai \<le> a"
  proof (cases "K2 = 0")
    case True
    then have "K1 = c"
      by (simp add: K2_def)
    with fai fa show ?thesis
      by (simp add: x_def)
  next
    case False
    with K20 have "1 \<le> K2"
      by simp
    then have "(1::rat) \<le> of_int K2"
      by simp
    with ea eai x K2 show ?thesis
      by linarith
  qed
  \<comment> \<open>\<open>(montant - aici) * 100\<close>\<close>
  have "0 \<le> a - ai" "a - ai < 1048576"
    using le ai0 ea x by linarith+
  from mk_error_20[OF this] obtain d where D: "fl_mag (a - ai) = Some d" and d0: "0 \<le> d"
    and ed: "\<bar>d - (a - ai)\<bar> \<le> 1 / 17179869184"
    by auto
  have "0 \<le> d * 100" "d * 100 < 134217728"
    using d0 ed ea eai K10 x by linarith+
  from mk_error_27[OF this] obtain qv where Q: "mk False (d * 100) = Fin False qv"
    and q0: "0 \<le> qv" and eq: "\<bar>qv - d * 100\<bar> \<le> 1 / 134217728"
    by auto
  have "of_int K2 \<le> qv + 1 / 2"
    using eq ed ea eai x K2 by linarith
  moreover have "qv + 1 / 2 < of_int K2 + 1"
    using eq ed ea eai x K2 by linarith
  ultimately have fq: "\<lfloor>qv + 1 / 2\<rfloor> = K2"
    by (intro floor_unique)
  \<comment> \<open>the remainder and the sum\<close>
  have "(0::rat) \<le> of_int K2 / 100" "(of_int K2 :: rat) / 100 < 1048576"
    using K20 K10 x K2 by simp_all
  from mk_error_20[OF this] obtain re where RE: "mk False (of_int K2 / 100) = Fin False re"
    and re0: "0 \<le> re" and ere: "\<bar>re - of_int K2 / 100\<bar> \<le> 1 / 17179869184"
    by auto
  have "0 \<le> ai + re" "ai + re < 1048576"
    using ai0 re0 eai ere x K2 by linarith+
  from mk_error_20[OF this] obtain s where S: "fl_mag (ai + re) = Some s" and s0: "0 \<le> s"
    and es: "\<bar>s - (ai + re)\<bar> \<le> 1 / 17179869184"
    by auto
  \<comment> \<open>the amount rounded to two decimals\<close>
  have "0 \<le> a * 100" "a * 100 < 134217728"
    using a0 ea x by linarith+
  from mk_error_27[OF this] obtain t where T: "mk False (a * 100) = Fin False t"
    and t0: "0 \<le> t" and etv: "\<bar>t - a * 100\<bar> \<le> 1 / 134217728"
    by auto
  have "of_int c \<le> t + 1 / 2"
    using etv ea x by linarith
  moreover have "t + 1 / 2 < of_int c + 1"
    using etv ea x by linarith
  ultimately have ft: "\<lfloor>t + 1 / 2\<rfloor> = c"
    by (intro floor_unique)
  \<comment> \<open>putting the steps together\<close>
  have pos: "js_lt (num 0) (Fin False a)"
    using ea x by (simp add: num_def sval_def, linarith)
  have mr: "Math_round (Fin False p) = Fin False (of_int K1)"
    "Math_round (Fin False qv) = Fin False (of_int K2)"
    "Math_round (Fin False t) = Fin False (of_int c)"
    using Math_round_nonneg[OF p0] Math_round_nonneg[OF q0] Math_round_nonneg[OF t0]
    by (simp_all only: K1_def fq ft)
  have adv: "round_2dp (js_mul (Fin False a) (num (1 / 2))) = Fin False ai"
    by (simp add: round_2dp_def num_def H P mr AI del: Math_round.simps)
  have rem: "round_2dp (js_sub (Fin False a) (Fin False ai)) = Fin False re"
    by (simp add: round_2dp_def num_def js_sub_nonneg[OF le D] Q mr RE del: Math_round.simps)
  have rnd: "round_2dp (Fin False a) = Fin False a"
    by (simp add: round_2dp_def num_def T mr A[unfolded x_def] del: Math_round.simps)
  have sum: "js_add (Fin False ai) (Fin False re) = Fin False s"
    using ai0 re0 S by (rule js_add_nonneg)
  have close: "\<bar>s - a\<bar> \<le> 1 / 4294967296"
    using es eai ere ea x K2 by linarith
  have tol: "within_tolerance (Fin False s) (Fin False a)"
  proof (cases "s = a")
    case True
    then show ?thesis
      by (simp add: within_tolerance_refl_fin)
  next
    case False
    have "0 \<le> \<bar>s - a\<bar>" "\<bar>s - a\<bar> < 2 powi (- 31)"
      using close by simp_all
    from fl_mag_error[OF this]
    obtain w where w: "fl_mag \<bar>s - a\<bar> = Some w" "0 \<le> w" "\<bar>w - \<bar>s - a\<bar>\<bar> \<le> 2 powi (- 31 - 54)"
      by auto
    from w(3) have "w - \<bar>s - a\<bar> \<le> 2 powi (- 31 - 54)"
      by linarith
    with close have "w \<le> 1 / 4294967296 + 2 powi (- 31 - 54)"
      by linarith
    then have "w \<le> 4835703278458517 / 4835703278458516698824704"
      by simp
    moreover have "js_abs (js_sub (Fin False s) (Fin False a)) = Fin False w"
      using w(1) False by (simp add: js_sub_def sval_def mk_def Let_def)
    ultimately show ?thesis
      by (simp only: within_tolerance_def tolerance_value) (simp add: sval_def)
  qed
  show ?thesis
    using pos tol
    by (simp add: x_def[symmetric] A sum_matches_def calc_of_def adv rem rnd sum
        del: js_add.simps)
qed

section \<open>The claims\<close>

subsection \<open>The preview\<close>

text \<open>
  Claim C3, as amended. For every amount that parses to a value strictly greater than 0,
  \<open>compute\<close> takes advance = \<open>Math.round(amount * 0.5 * 100) / 100\<close> and remainder =
  \<open>Math.round((amount - advance) * 100) / 100\<close> in binary64 arithmetic, returns the
  triple of total, advance and remainder, writes the three formatted values into the
  preview block and shows it. This is rounding half up at two decimal places wherever the
  rounded quantity (the binary64 value of amount \<times> 0.5, of amount - advance) is below
  \<open>2\<^sup>2\<^sup>0\<close> and far from a tie: the result is then the binary64 number nearest to that
  quantity rounded half up at two decimals. At or near a tie the binary64 product
  decides (see the counterexample that follows). The amount may be \<open>+Infinity\<close>.
\<close>

theorem compute_positive_amount:
  assumes "js_lt (num 0) (amount pg)"
  shows "compute env pg =
      (Some \<lparr>montant = amount pg,
             aici = round_2dp (js_mul (amount pg) (num (1 / 2))),
             reste = round_2dp (js_sub (amount pg)
                       (round_2dp (js_mul (amount pg) (num (1 / 2)))))\<rparr>,
       pg\<lparr>calcZone :=
          \<lparr>innerHTML = preview_markup (format env (amount pg))
              (format env (round_2dp (js_mul (amount pg) (num (1 / 2)))))
              (format env (round_2dp (js_sub (amount pg)
                 (round_2dp (js_mul (amount pg) (num (1 / 2))))))),
           classList = removeAll (lit ''hidden'') (classList (calcZone pg))\<rparr>\<rparr>)
    \<and> \<not> hidden (snd (compute env pg))
    \<and> (\<forall>h. js_mul (amount pg) (num (1 / 2)) = Fin False h \<and> 0 \<le> h \<and> h < 1048576 \<and>
            far_from_tie h \<longrightarrow>
          round_2dp (js_mul (amount pg) (num (1 / 2))) = mk False (half_up_2dp h))
    \<and> (\<forall>d. js_sub (amount pg) (round_2dp (js_mul (amount pg) (num (1 / 2)))) = Fin False d \<and>
            0 \<le> d \<and> d < 1048576 \<and> far_from_tie d \<longrightarrow>
          round_2dp (js_sub (amount pg) (round_2dp (js_mul (amount pg) (num (1 / 2))))) =
            mk False (half_up_2dp d))"
proof -
  have "\<forall>x v. x = Fin False v \<and> 0 \<le> v \<and> v < 1048576 \<and> far_from_tie v \<longrightarrow>
      round_2dp x = mk False (half_up_2dp v)"
    using round_2dp_half_up by blast
  with compute_pos[OF assms, of env] show ?thesis
    by (simp add: calc_of_def hidden_def)
qed

theorem compute_positive_amount_witness:
  "compute demo_host (demo_page\<lparr>montant_value := lit ''10.017''\<rparr>) =
      (Some \<lparr>montant = dbl ''10.017'', aici = dbl ''5.01'', reste = dbl ''5.01''\<rparr>,
       demo_page\<lparr>montant_value := lit ''10.017'',
         calcZone :=
          \<lparr>innerHTML = preview_markup (euros ''10,02'') (euros ''5,01'') (euros ''5,01''),
           classList = []\<rparr>\<rparr>)
    \<and> \<not> hidden (snd (compute demo_host (demo_page\<lparr>montant_value := lit ''10.017''\<rparr>)))
    \<and> dbl ''5.01'' = mk False (half_up_2dp (2819534841710641 / 562949953421312))
    \<and> dbl ''5.01'' = mk False (half_up_2dp (2818690416780509 / 562949953421312))"
proof -
  let ?pg = "demo_page\<lparr>montant_value := lit ''10.017''\<rparr>"
  have a: "amount ?pg = dbl ''10.017''"
    by (simp add: amount_of_text)
  have p: "js_lt (num 0) (amount ?pg)"
    by (simp only: a positive_values_2)
  note t = compute_positive_amount[OF p, of demo_host]
  from t have c: "compute demo_host ?pg =
      (Some \<lparr>montant = dbl ''10.017'', aici = dbl ''5.01'', reste = dbl ''5.01''\<rparr>,
       demo_page\<lparr>montant_value := lit ''10.017'',
         calcZone :=
          \<lparr>innerHTML = preview_markup (euros ''10,02'') (euros ''5,01'') (euros ''5,01''),
           classList = []\<rparr>\<rparr>)"
    by (simp add: a demo_fields split_10_017 format_demo_2)
  from t have s: "\<not> hidden (snd (compute demo_host ?pg))"
    by blast
  from t have "\<forall>h. js_mul (amount ?pg) (num (1 / 2)) = Fin False h \<and> 0 \<le> h \<and> h < 1048576 \<and>
      far_from_tie h \<longrightarrow>
      round_2dp (js_mul (amount ?pg) (num (1 / 2))) = mk False (half_up_2dp h)"
    by blast
  with half_10_017 far_from_tie_values(1)
  have "round_2dp (js_mul (amount ?pg) (num (1 / 2))) =
      mk False (half_up_2dp (2819534841710641 / 562949953421312))"
    by (simp add: a)
  then have h: "dbl ''5.01'' = mk False (half_up_2dp (2819534841710641 / 562949953421312))"
    by (simp add: a split_10_017)
  from t have "\<forall>d. js_sub (amount ?pg) (round_2dp (js_mul (amount ?pg) (num (1 / 2)))) =
        Fin False d \<and> 0 \<le> d \<and> d < 1048576 \<and> far_from_tie d \<longrightarrow>
      round_2dp (js_sub (amount ?pg) (round_2dp (js_mul (amount ?pg) (num (1 / 2))))) =
        mk False (half_up_2dp d)"
    by blast
  with diff_10_017 far_from_tie_values(2)
  have "round_2dp (js_sub (amount ?pg) (round_2dp (js_mul (amount ?pg) (num (1 / 2))))) =
      mk False (half_up_2dp (2818690416780509 / 562949953421312))"
    by (simp add: a split_10_017)
  then have d: "dbl ''5.01'' = mk False (half_up_2dp (2818690416780509 / 562949953421312))"
    by (simp add: a split_10_017)
  from c s h d show ?thesis
    by - (intro conjI; assumption)
qed

text \<open>
  The amount text \<open>2.01\<close> is the decimal 2.01, whose half 1.005 rounds half up to 1.01;
  \<open>compute\<close> returns the advance 1 (the product \<open>1.005 * 100\<close> is just below 100.5 in
  binary64). The amount text \<open>0.03\<close> has the binary64 half
  \<open>0.01499999999999999944...\<close>, which rounds half up to 0.01; \<open>compute\<close> returns the
  advance 0.02 (the product of that half and 100 is exactly 1.5 in binary64). So the
  advance is rounding half up at two decimals neither of the decimal value read nor of
  its binary64 value, for every amount.
\<close>

theorem advance_is_not_half_up_at_a_tie:
  "fst (compute demo_host (demo_page\<lparr>montant_value := lit ''2.01''\<rparr>)) =
      Some \<lparr>montant = dbl ''2.01'', aici = num 1, reste = dbl ''1.01''\<rparr>
   \<and> dbl ''2.01'' = mk False (201 / 100)
   \<and> mk False (half_up_2dp (201 / 100 * (1 / 2))) = dbl ''1.01''
   \<and> num 1 \<noteq> dbl ''1.01''
   \<and> fst (compute demo_host (demo_page\<lparr>montant_value := lit ''0.03''\<rparr>)) =
      Some \<lparr>montant = dbl ''0.03'', aici = dbl ''0.02'', reste = dbl ''0.01''\<rparr>
   \<and> js_mul (dbl ''0.03'') (num (1 / 2)) =
      Fin False (1080863910568919 / 72057594037927936)
   \<and> mk False (half_up_2dp (1080863910568919 / 72057594037927936)) = dbl ''0.01''
   \<and> dbl ''0.02'' \<noteq> dbl ''0.01''"
proof -
  let ?p = "demo_page\<lparr>montant_value := lit ''2.01''\<rparr>"
  let ?q = "demo_page\<lparr>montant_value := lit ''0.03''\<rparr>"
  have a: "amount ?p = dbl ''2.01''" "amount ?q = dbl ''0.03''"
    by (simp_all add: amount_of_text)
  have p: "js_lt (num 0) (amount ?p)" "js_lt (num 0) (amount ?q)"
    by (simp_all only: a positive_values_2)
  have c1: "fst (compute demo_host ?p) =
      Some \<lparr>montant = dbl ''2.01'', aici = num 1, reste = dbl ''1.01''\<rparr>"
    using compute_pos[OF p(1), of demo_host] by (simp add: a calc_of_def split_2_01)
  have c2: "fst (compute demo_host ?q) =
      Some \<lparr>montant = dbl ''0.03'', aici = dbl ''0.02'', reste = dbl ''0.01''\<rparr>"
    using compute_pos[OF p(2), of demo_host] by (simp add: a calc_of_def split_0_03)
  have v1: "dbl ''2.01'' = mk False (201 / 100)"
    by (simp add: nearest_values)
  have v2: "mk False (half_up_2dp (201 / 100 * (1 / 2))) = dbl ''1.01''"
    by (simp only: half_up_values nearest_values)
  have v3: "mk False (half_up_2dp (1080863910568919 / 72057594037927936)) = dbl ''0.01''"
    by (simp only: half_up_values nearest_values)
  from c1 v1 v2 distinct_values(1) c2 half_0_03 v3 distinct_values(2) show ?thesis
    by - (intro conjI; assumption)
qed

text \<open>
  Claim C5. For every amount text that does not parse to a number (NaN) or parses to a
  value \<open>\<le> 0\<close>, \<open>compute\<close> hides the preview area and returns no result, and shows no
  message; the texts \<open>0\<close>, \<open>-5\<close> and \<open>abc\<close> are such inputs.
\<close>

theorem compute_hides_preview:
  assumes "isNaN (amount pg) \<or> js_le (amount pg) (num 0) \<or>
           montant_value pg \<in> {lit ''0'', lit ''-5'', lit ''abc''}"
  shows "compute env pg =
      (None, pg\<lparr>calcZone := classList_add (lit ''hidden'') (calcZone pg)\<rparr>)
    \<and> hidden (snd (compute env pg))
    \<and> alerts (snd (compute env pg)) = alerts pg"
proof -
  have "isNaN (amount pg) \<or> js_le (amount pg) (num 0)"
    using assms
    by (auto simp: amount_of_value[of pg "''0''"] amount_of_value[of pg "''-5''"]
        amount_of_value[of pg "''abc''"] dbl_whole dbl_other isNaN_def num_def sval_def)
  from compute_non_pos[OF this, of env] show ?thesis
    by (simp add: hidden_classList_add)
qed

theorem compute_hides_preview_witness:
  "compute demo_host (demo_page\<lparr>montant_value := lit ''0''\<rparr>) =
      (None, demo_page\<lparr>montant_value := lit ''0''\<rparr>)
   \<and> compute demo_host (demo_page\<lparr>montant_value := lit ''-5''\<rparr>) =
      (None, demo_page\<lparr>montant_value := lit ''-5''\<rparr>)
   \<and> compute demo_host (demo_page\<lparr>montant_value := lit ''abc''\<rparr>) =
      (None, demo_page\<lparr>montant_value := lit ''abc''\<rparr>)
   \<and> hidden (demo_page\<lparr>montant_value := lit ''abc''\<rparr>)"
  using compute_hides_preview[of "demo_page\<lparr>montant_value := lit ''0''\<rparr>" demo_host]
    compute_hides_preview[of "demo_page\<lparr>montant_value := lit ''-5''\<rparr>" demo_host]
    compute_hides_preview[of "demo_page\<lparr>montant_value := lit ''abc''\<rparr>" demo_host]
  by (simp add: demo_already_hidden demo_fields hidden_def)

text \<open>
  Claim C1, as amended. For every positive amount of at most two decimals up to
  1000000 (the binary64 value nearest to \<open>c / 100\<close> for a whole number of cents \<open>c\<close> from
  1 to \<open>10^8\<close>), and so for the amounts 80, 120, 0.01, 99.99 and 1000000, the computed
  advance plus the computed remainder equals the amount rounded to two decimals, within
  the tolerance \<open>1e-9\<close>. (The identity does not hold for every positive amount: see the
  counterexample that follows.)
\<close>

theorem advance_plus_remainder_listed_amounts:
  assumes "(\<exists>c::int. 1 \<le> c \<and> c \<le> 100000000 \<and> amount pg = mk False (of_int c / 100)) \<or>
    montant_value pg \<in> {lit ''80'', lit ''120'', lit ''0.01'', lit ''99.99'', lit ''1000000''}"
  shows "fst (compute env pg) = Some (calc_of (amount pg)) \<and> sum_matches (calc_of (amount pg))"
proof -
  from assms have "\<exists>c::int. 1 \<le> c \<and> c \<le> 100000000 \<and> amount pg = mk False (of_int c / 100)"
  proof
    assume "montant_value pg \<in>
      {lit ''80'', lit ''120'', lit ''0.01'', lit ''99.99'', lit ''1000000''}"
    then have "amount pg \<in>
      {dbl ''80'', dbl ''120'', dbl ''0.01'', dbl ''99.99'', dbl ''1000000''}"
      by (auto simp: amount_of_value[of pg "''80''"] amount_of_value[of pg "''120''"]
          amount_of_value[of pg "''0.01''"] amount_of_value[of pg "''99.99''"]
          amount_of_value[of pg "''1000000''"])
    then consider "amount pg = mk False (of_int 8000 / 100)"
      | "amount pg = mk False (of_int 12000 / 100)" | "amount pg = mk False (of_int 1 / 100)"
      | "amount pg = mk False (of_int 9999 / 100)"
      | "amount pg = mk False (of_int 100000000 / 100)"
      by (auto simp: listed_amounts)
    then show ?thesis
      by cases (rule exI[of _ 8000], simp, rule exI[of _ 12000], simp, rule exI[of _ 1], simp,
          rule exI[of _ 9999], simp, rule exI[of _ 100000000], simp)
  qed
  then obtain c :: int where "1 \<le> c" "c \<le> 100000000" "amount pg = mk False (of_int c / 100)"
    by blast
  with two_decimal_amount[of c]
  have "js_lt (num 0) (amount pg) \<and> sum_matches (calc_of (amount pg))"
    by simp
  with compute_pos[of pg env] show ?thesis
    by simp
qed

theorem advance_plus_remainder_listed_amounts_witness:
  "fst (compute demo_host (demo_page\<lparr>montant_value := lit ''99.99''\<rparr>)) =
      Some \<lparr>montant = dbl ''99.99'', aici = num 50, reste = dbl ''49.99''\<rparr>
   \<and> js_add (num 50) (dbl ''49.99'') = dbl ''99.99000000000001''
   \<and> round_2dp (dbl ''99.99'') = dbl ''99.99''
   \<and> within_tolerance (dbl ''99.99000000000001'') (dbl ''99.99'')"
proof -
  have a: "amount (demo_page\<lparr>montant_value := lit ''99.99''\<rparr>) = dbl ''99.99''"
    by (simp add: amount_of_text)
  from advance_plus_remainder_listed_amounts
    [of "demo_page\<lparr>montant_value := lit ''99.99''\<rparr>" demo_host]
  show ?thesis
    by (simp add: a calc_of_def splits sums round_2dp_values within_tolerance_99_99)
qed

text \<open>
  The amount text \<open>0.015\<close> parses to a positive number; \<open>compute\<close> returns the advance
  0.01 and the remainder 0, whose sum is 0.01, while the amount rounded to two decimals
  is 0.02 (the product \<open>0.015 * 100\<close> is exactly 1.5 in binary64, and
  \<open>(0.015 - 0.01) * 100\<close> is just below 0.5).
\<close>

theorem advance_plus_remainder_fails_at_0_015:
  "js_lt (num 0) (amount (demo_page\<lparr>montant_value := lit ''0.015''\<rparr>))
   \<and> fst (compute demo_host (demo_page\<lparr>montant_value := lit ''0.015''\<rparr>)) =
      Some \<lparr>montant = dbl ''0.015'', aici = dbl ''0.01'', reste = num 0\<rparr>
   \<and> js_add (dbl ''0.01'') (num 0) = dbl ''0.01''
   \<and> round_2dp (dbl ''0.015'') = dbl ''0.02''
   \<and> \<not> within_tolerance (dbl ''0.01'') (dbl ''0.02'')
   \<and> \<not> sum_matches \<lparr>montant = dbl ''0.015'', aici = dbl ''0.01'', reste = num 0\<rparr>"
proof -
  have a: "amount (demo_page\<lparr>montant_value := lit ''0.015''\<rparr>) = dbl ''0.015''"
    by (simp add: amount_of_text)
  have p: "js_lt (num 0) (amount (demo_page\<lparr>montant_value := lit ''0.015''\<rparr>))"
    by (simp add: a positive_values)
  from compute_pos[OF p, of demo_host] show ?thesis
    by (simp add: a positive_values calc_of_def splits sums round_2dp_values sum_matches_def
        not_within_tolerance_0_01_0_02)
qed

subsection \<open>The submit handler\<close>

text \<open>
  Claim C4. The submit handler rejects with the blocking notification (``Merci de
  compl\'eter le formulaire.'') and does nothing else (no row is added, the form fields
  and the preview area stay as they are) whenever the client name or the service
  description is empty after trimming white space, or the amount text parses to a zero
  or to NaN; an empty client name is rejected whatever the other fields hold.
\<close>

theorem submit_rejects_incomplete:
  assumes "trim (client_value pg) = [] \<or> trim (prestation_value pg) = [] \<or>
           isNaN (amount pg) \<or> amount pg = Fin False 0 \<or> amount pg = Fin True 0"
  shows "submit env pg = Inr (pg\<lparr>alerts := alerts pg @ [msg_incomplete]\<rparr>)"
proof -
  from assms have "trim (client_value pg) = [] \<or> trim (prestation_value pg) = [] \<or>
      \<not> truthy (amount pg)"
    by (auto simp: isNaN_def)
  then show ?thesis
    by (rule submit_reject)
qed

theorem submit_rejects_incomplete_witness:
  "submit demo_host (demo_page\<lparr>client_value := lit ''  ''\<rparr>) =
      Inr (demo_page\<lparr>client_value := lit ''  '', alerts := [msg_incomplete]\<rparr>)
   \<and> submit demo_host (demo_page\<lparr>montant_value := lit ''0''\<rparr>) =
      Inr (demo_page\<lparr>montant_value := lit ''0'', alerts := [msg_incomplete]\<rparr>)"
proof -
  have a: "amount (demo_page\<lparr>montant_value := lit ''0''\<rparr>) = Fin False 0"
    by (simp add: amount_of_text dbl_whole num_def)
  from submit_rejects_incomplete[of "demo_page\<lparr>client_value := lit ''  ''\<rparr>" demo_host]
    submit_rejects_incomplete[of "demo_page\<lparr>montant_value := lit ''0''\<rparr>" demo_host]
  show ?thesis
    by (simp add: a demo_fields trim_values)
qed

text \<open>
  Claim C6. The validation of the submit handler does not check the sign of the parsed
  amount: when the client name and the service description are not empty after
  trimming and the amount text parses to a strictly negative number, the submission is
  not rejected. (What happens instead: \<open>compute\<close> hides the preview and returns
  \<open>undefined\<close>, and reading \<open>calc.aici\<close> throws.)
\<close>

theorem submit_does_not_check_sign:
  assumes "trim (client_value pg) \<noteq> []" and "trim (prestation_value pg) \<noteq> []"
    and "js_lt (amount pg) (num 0)"
  shows "submit env pg \<noteq> Inr (pg\<lparr>alerts := alerts pg @ [msg_incomplete]\<rparr>)
    \<and> submit env pg =
        Inl (TypeError, pg\<lparr>calcZone := classList_add (lit ''hidden'') (calcZone pg)\<rparr>)"
  using submit_throw[OF assms, of env] by simp

theorem submit_does_not_check_sign_witness:
  "submit demo_host (demo_page\<lparr>montant_value := lit ''-12.5''\<rparr>) =
      Inl (TypeError, demo_page\<lparr>montant_value := lit ''-12.5''\<rparr>)
   \<and> amount (demo_page\<lparr>montant_value := lit ''-12.5''\<rparr>) = Fin True (25 / 2)"
proof -
  have a: "amount (demo_page\<lparr>montant_value := lit ''-12.5''\<rparr>) = dbl ''-12.5''"
    by (simp add: amount_of_text)
  have t: "trim (client_value (demo_page\<lparr>montant_value := lit ''-12.5''\<rparr>)) \<noteq> []"
    "trim (prestation_value (demo_page\<lparr>montant_value := lit ''-12.5''\<rparr>)) \<noteq> []"
    by (simp_all add: demo_fields trim_nonempty)
  have n: "js_lt (amount (demo_page\<lparr>montant_value := lit ''-12.5''\<rparr>)) (num 0)"
    by (simp add: a negative_values)
  from submit_does_not_check_sign[OF t n, of demo_host] show ?thesis
    by (simp add: a dbl_other demo_fields demo_already_hidden)
qed

text \<open>
  Claim C2, at its failing input. With the client ``Mme Dupont'', the service
  ``Jardinage'' and the amount text \<open>-5\<close>, the submit handler does not run to completion:
  the amount passes the validation, \<open>compute\<close> hides the preview and returns
  \<open>undefined\<close>, and the handler throws a TypeError before it adds a row, resets the form
  or shows a message.
\<close>

theorem submit_negative_amount_throws:
  "submit env (pg\<lparr>client_value := lit ''Mme Dupont'', prestation_value := lit ''Jardinage'',
                 montant_value := lit ''-5''\<rparr>) =
     Inl (TypeError,
          pg\<lparr>client_value := lit ''Mme Dupont'', prestation_value := lit ''Jardinage'',
             montant_value := lit ''-5'',
             calcZone := classList_add (lit ''hidden'') (calcZone pg)\<rparr>)"
proof -
  let ?pg = "pg\<lparr>client_value := lit ''Mme Dupont'', prestation_value := lit ''Jardinage'',
                 montant_value := lit ''-5''\<rparr>"
  have "amount ?pg = dbl ''-5''"
    by (simp add: amount_def dbl_def or_str_def lit_def)
  then have n: "js_lt (amount ?pg) (num 0)"
    by (simp add: negative_values)
  have t: "trim (client_value ?pg) \<noteq> []" "trim (prestation_value ?pg) \<noteq> []"
    by (simp_all add: trim_nonempty)
  from submit_throw[OF t n, of env] show ?thesis
    by simp
qed

theorem submit_negative_amount_throws_witness:
  "submit demo_host (demo_page\<lparr>montant_value := lit ''-5''\<rparr>) =
      Inl (TypeError, demo_page\<lparr>montant_value := lit ''-5''\<rparr>)
   \<and> tbody (demo_page\<lparr>montant_value := lit ''-5''\<rparr>) = []
   \<and> alerts (demo_page\<lparr>montant_value := lit ''-5''\<rparr>) = []"
proof -
  have p: "demo_page\<lparr>client_value := lit ''Mme Dupont'',
      prestation_value := lit ''Jardinage'', montant_value := lit ''-5''\<rparr> =
      demo_page\<lparr>montant_value := lit ''-5''\<rparr>"
    by (simp add: demo_page_def)
  from submit_negative_amount_throws[of demo_host demo_page] show ?thesis
    by (simp add: p demo_already_hidden demo_fields)
qed



text \<open>
  Claim C7, as amended. When the date text is empty, the date recorded in the new
  history row of a valid submission is the current date in UTC, in ISO form
  (\<open>YYYY-MM-DD\<close>, for a year from 0 to 9999): the first ten characters of
  \<open>new Date().toISOString()\<close>. (It is not the local date: see the counterexample that
  follows.)
\<close>

theorem recorded_date_is_utc_date:
  assumes "trim (client_value pg) \<noteq> []" and "trim (prestation_value pg) \<noteq> []"
    and "js_lt (num 0) (amount pg)" and "datePrest_value pg = []"
    and "0 \<le> utc_year env" and "utc_year env \<le> 9999"
  shows "tbody (page_after (submit env pg)) =
      \<lparr>innerHTML = row_of_columns
         [utc_date env, trim (client_value pg), trim (prestation_value pg),
          format env (amount pg), format env (round_2dp (js_mul (amount pg) (num (1 / 2)))),
          label_transmis],
       classList = []\<rparr> # tbody pg
    \<and> utc_date env =
      (case civil_from_days (now env div msPerDay) of
         (y, m, d) \<Rightarrow> pad4 y @ lit ''-'' @ pad2 m @ lit ''-'' @ pad2 d)"
  using submit_ok[OF assms(1-3), of env] today_is_utc_date[OF assms(5,6)] assms(4)
  by (simp add: page_after_def or_str_def calc_of_def)

theorem recorded_date_is_utc_date_witness:
  "tbody (page_after (submit demo_host (demo_page\<lparr>datePrest_value := []\<rparr>))) =
      [\<lparr>innerHTML = row_of_columns
          [lit ''2025-10-12'', lit ''Mme Dupont'', lit ''Jardinage'', euros ''80,00'',
           euros ''40,00'', label_transmis],
        classList = []\<rparr>]
   \<and> utc_date demo_host = lit ''2025-10-12''"
proof -
  let ?pg = "demo_page\<lparr>datePrest_value := []\<rparr>"
  have a: "amount ?pg = num 80"
    by (simp add: amount_of_value demo_fields dbl_whole)
  have t: "trim (client_value ?pg) \<noteq> []" "trim (prestation_value ?pg) \<noteq> []"
    by (simp_all add: demo_fields trim_nonempty)
  have p: "js_lt (num 0) (amount ?pg)"
    by (simp add: a positive_values)
  have y: "0 \<le> utc_year demo_host" "utc_year demo_host \<le> 9999"
    by (simp_all add: demo_dates)
  from recorded_date_is_utc_date[OF t p _ y] show ?thesis
    by (simp add: a demo_dates splits format_demo demo_fields trim_values)
qed

text \<open>
  At 2025-10-12T22:30:00Z on a host two hours ahead of UTC the local date is 2025-10-13;
  a valid submission with an empty date text records 2025-10-12.
\<close>

theorem recorded_date_is_not_local_date:
  "submit demo_host (demo_page\<lparr>datePrest_value := []\<rparr>) =
      Inr (demo_page\<lparr>client_value := [], prestation_value := [], datePrest_value := [],
             montant_value := [],
             calcZone := \<lparr>innerHTML = preview_markup (euros ''80,00'') (euros ''40,00'') (euros ''40,00''),
                          classList = [lit ''hidden'']\<rparr>,
             tbody := [\<lparr>innerHTML = row_of_columns
                         [lit ''2025-10-12'', lit ''Mme Dupont'', lit ''Jardinage'',
                          euros ''80,00'', euros ''40,00'', label_transmis],
                       classList = []\<rparr>],
             alerts := [msg_transmitted]\<rparr>)
   \<and> local_date demo_host = lit ''2025-10-13''
   \<and> lit ''2025-10-12'' \<noteq> lit ''2025-10-13''"
proof -
  let ?pg = "demo_page\<lparr>datePrest_value := []\<rparr>"
  have a: "amount ?pg = num 80"
    by (simp add: amount_of_value demo_fields dbl_whole)
  have t: "trim (client_value ?pg) \<noteq> []" "trim (prestation_value ?pg) \<noteq> []"
    by (simp_all add: demo_fields trim_nonempty)
  have p: "js_lt (num 0) (amount ?pg)"
    by (simp add: a positive_values)
  have n: "lit ''2025-10-12'' \<noteq> lit ''2025-10-13''"
    by (simp add: lit_def)
  from submit_ok[OF t p, of demo_host] show ?thesis
    by (simp add: a n demo_dates format_demo demo_fields trim_values calc_of_def splits
        or_str_def)
qed

subsection \<open>The demonstration rows\<close>

text \<open>
  Claim C9. When the script is loaded, exactly two fixed rows are appended at the bottom
  of the history list, below the rows already there, and they stay the last two rows
  when the submit handler runs afterwards. Their amounts are 80 and 120; the advance of
  each is \<open>amount * 0.5\<close> with no rounding to two decimals, which gives 40 and 60; their
  status label is ``R\'egl\'e (d\'emo)''.
\<close>

theorem load_appends_two_seed_rows:
  "load env pg = pg\<lparr>tbody := tbody pg @ demo_rows env\<rparr>
   \<and> demo_rows env =
      [\<lparr>innerHTML = row_of_columns
          [lit ''2025-10-12'', lit ''Mme Dupont'', lit ''Entretien jardin'',
           format env (num 80), format env (js_mul (num 80) (num (1 / 2))), label_regle],
        classList = []\<rparr>,
       \<lparr>innerHTML = row_of_columns
          [lit ''2025-10-05'', lit ''M. Martin'', lit ''Bricolage l'' @ [0xE9] @ lit ''ger'',
           format env (num 120), format env (js_mul (num 120) (num (1 / 2))), label_regle],
        classList = []\<rparr>]
   \<and> js_mul (num 80) (num (1 / 2)) = num 40
   \<and> js_mul (num 120) (num (1 / 2)) = num 60
   \<and> bottom_rows 2 (load env pg) = demo_rows env
   \<and> bottom_rows 2 (page_after (submit env' (load env pg))) = demo_rows env"
proof -
  have "2 \<le> length (tbody (load env pg))"
    by (simp add: load_tbody demo_rows_def)
  from bottom_rows_submit[OF this, of env']
  have "bottom_rows 2 (page_after (submit env' (load env pg))) = demo_rows env"
    by (simp only: bottom_rows_load)
  with load_tbody[of env pg] demo_rows_def[of env] seed_advances bottom_rows_load[of env pg]
  show ?thesis
    by - (intro conjI; assumption)
qed

theorem load_appends_two_seed_rows_witness:
  "tbody (load demo_host demo_page) =
      [\<lparr>innerHTML = row_of_columns
          [lit ''2025-10-12'', lit ''Mme Dupont'', lit ''Entretien jardin'',
           euros ''80,00'', euros ''40,00'', label_regle],
        classList = []\<rparr>,
       \<lparr>innerHTML = row_of_columns
          [lit ''2025-10-05'', lit ''M. Martin'', lit ''Bricolage l'' @ [0xE9] @ lit ''ger'',
           euros ''120,00'', euros ''60,00'', label_regle],
        classList = []\<rparr>]
   \<and> bottom_rows 2 (page_after (submit demo_host (load demo_host demo_page))) =
       tbody (load demo_host demo_page)"
proof -
  from load_appends_two_seed_rows[of demo_host demo_page demo_host]
  have l: "load demo_host demo_page =
      demo_page\<lparr>tbody := tbody demo_page @ demo_rows demo_host\<rparr>"
    and b: "bottom_rows 2 (page_after (submit demo_host (load demo_host demo_page))) =
      demo_rows demo_host"
    by blast+
  have "tbody (load demo_host demo_page) = demo_rows demo_host"
    by (simp add: l demo_fields)
  with b show ?thesis
    by (simp add: demo_rows_def seed_advances format_demo)
qed

subsection \<open>Amount texts with a numeric prefix\<close>

text \<open>
  Claim C10, as amended. \<open>parseFloat\<close> reads the leading numeric prefix of the amount
  text and fails (NaN) only on a text without one; a run of digits followed by a rest
  that cannot continue a number has the value of the digits. Whether the amount is then
  accepted depends on the value read. When it is positive, the preview is shown and a
  submission with a client and a service is accepted: \<open>80abc\<close> parses to 80, the preview
  shows the advance 40 and the submission (client ``Mme Dupont'', service ``Jardinage'')
  is recorded. When it is zero, as for \<open>0abc\<close>, the preview is hidden and the submission is
  rejected with the notification for an incomplete form, like a text that does not parse.
\<close>

theorem amount_with_numeric_prefix:
  "(has_numeric_prefix s \<longleftrightarrow> parseFloat s \<noteq> NaN)
   \<and> (ds \<noteq> [] \<and> list_all is_digit ds \<and> ends_number r \<longrightarrow>
        parseFloat (ds @ r) = mk False (of_int (digits_val ds)))
   \<and> (has_numeric_prefix (montant_value q) \<longrightarrow>
        amount q = parseFloat (montant_value q) \<and> amount q \<noteq> NaN
        \<and> (js_lt (num 0) (amount q) \<longrightarrow>
             compute env q =
               (Some (calc_of (amount q)),
                q\<lparr>calcZone :=
                   \<lparr>innerHTML = preview_markup (format env (amount q))
                       (format env (aici (calc_of (amount q))))
                       (format env (reste (calc_of (amount q)))),
                    classList = removeAll (lit ''hidden'') (classList (calcZone q))\<rparr>\<rparr>)
             \<and> (trim (client_value q) \<noteq> [] \<and> trim (prestation_value q) \<noteq> [] \<longrightarrow>
                  tbody (page_after (submit env q)) =
                    \<lparr>innerHTML = row_of_columns
                       [or_str (datePrest_value q) (today env), trim (client_value q),
                        trim (prestation_value q), format env (amount q),
                        format env (aici (calc_of (amount q))), label_transmis],
                     classList = []\<rparr> # tbody q
                  \<and> alerts (page_after (submit env q)) = alerts q @ [msg_transmitted]))
        \<and> (\<not> truthy (amount q) \<longrightarrow>
             compute env q =
               (None, q\<lparr>calcZone := classList_add (lit ''hidden'') (calcZone q)\<rparr>)
             \<and> submit env q = Inr (q\<lparr>alerts := alerts q @ [msg_incomplete]\<rparr>)))
   \<and> amount (pg\<lparr>montant_value := lit ''80abc''\<rparr>) = num 80
   \<and> compute env (pg\<lparr>montant_value := lit ''80abc''\<rparr>) =
      (Some \<lparr>montant = num 80, aici = num 40, reste = num 40\<rparr>,
       pg\<lparr>montant_value := lit ''80abc'',
          calcZone := \<lparr>innerHTML = preview_markup (format env (num 80)) (format env (num 40))
                         (format env (num 40)),
                       classList = removeAll (lit ''hidden'') (classList (calcZone pg))\<rparr>\<rparr>)
   \<and> submit env (pg\<lparr>client_value := lit ''Mme Dupont'',
                      prestation_value := lit ''Jardinage'',
                      montant_value := lit ''80abc''\<rparr>) =
      Inr (pg\<lparr>client_value := [], prestation_value := [], datePrest_value := [],
              montant_value := [],
              calcZone := \<lparr>innerHTML = preview_markup (format env (num 80))
                             (format env (num 40)) (format env (num 40)),
                           classList = removeAll (lit ''hidden'') (classList (calcZone pg)) @
                             [lit ''hidden'']\<rparr>,
              tbody := \<lparr>innerHTML = row_of_columns
                          [or_str (datePrest_value pg) (today env), lit ''Mme Dupont'',
                           lit ''Jardinage'', format env (num 80), format env (num 40),
                           label_transmis],
                        classList = []\<rparr> # tbody pg,
              alerts := alerts pg @ [msg_transmitted]\<rparr>)"
proof -
  let ?pg = "pg\<lparr>montant_value := lit ''80abc''\<rparr>"
  let ?pg' = "pg\<lparr>client_value := lit ''Mme Dupont'', prestation_value := lit ''Jardinage'',
                  montant_value := lit ''80abc''\<rparr>"
  have g1: "has_numeric_prefix s \<longleftrightarrow> parseFloat s \<noteq> NaN"
    by (simp add: parseFloat_NaN)
  have g2: "ds \<noteq> [] \<and> list_all is_digit ds \<and> ends_number r \<longrightarrow>
      parseFloat (ds @ r) = mk False (of_int (digits_val ds))"
    using parseFloat_digits by blast
  have g3: "has_numeric_prefix (montant_value q) \<longrightarrow>
        amount q = parseFloat (montant_value q) \<and> amount q \<noteq> NaN
        \<and> (js_lt (num 0) (amount q) \<longrightarrow>
             compute env q =
               (Some (calc_of (amount q)),
                q\<lparr>calcZone :=
                   \<lparr>innerHTML = preview_markup (format env (amount q))
                       (format env (aici (calc_of (amount q))))
                       (format env (reste (calc_of (amount q)))),
                    classList = removeAll (lit ''hidden'') (classList (calcZone q))\<rparr>\<rparr>)
             \<and> (trim (client_value q) \<noteq> [] \<and> trim (prestation_value q) \<noteq> [] \<longrightarrow>
                  tbody (page_after (submit env q)) =
                    \<lparr>innerHTML = row_of_columns
                       [or_str (datePrest_value q) (today env), trim (client_value q),
                        trim (prestation_value q), format env (amount q),
                        format env (aici (calc_of (amount q))), label_transmis],
                     classList = []\<rparr> # tbody q
                  \<and> alerts (page_after (submit env q)) = alerts q @ [msg_transmitted]))
        \<and> (\<not> truthy (amount q) \<longrightarrow>
             compute env q =
               (None, q\<lparr>calcZone := classList_add (lit ''hidden'') (calcZone q)\<rparr>)
             \<and> submit env q = Inr (q\<lparr>alerts := alerts q @ [msg_incomplete]\<rparr>))"
  proof
    assume n: "has_numeric_prefix (montant_value q)"
    then have ne: "montant_value q \<noteq> []"
      by (auto simp: has_numeric_prefix_def Let_def trimStart_def)
    then have e: "amount q = parseFloat (montant_value q)"
      by (simp add: amount_def or_str_def)
    with n have nn: "amount q \<noteq> NaN"
      by (simp add: parseFloat_NaN)
    have pos: "compute env q =
               (Some (calc_of (amount q)),
                q\<lparr>calcZone :=
                   \<lparr>innerHTML = preview_markup (format env (amount q))
                       (format env (aici (calc_of (amount q))))
                       (format env (reste (calc_of (amount q)))),
                    classList = removeAll (lit ''hidden'') (classList (calcZone q))\<rparr>\<rparr>)
             \<and> (trim (client_value q) \<noteq> [] \<and> trim (prestation_value q) \<noteq> [] \<longrightarrow>
                  tbody (page_after (submit env q)) =
                    \<lparr>innerHTML = row_of_columns
                       [or_str (datePrest_value q) (today env), trim (client_value q),
                        trim (prestation_value q), format env (amount q),
                        format env (aici (calc_of (amount q))), label_transmis],
                     classList = []\<rparr> # tbody q
                  \<and> alerts (page_after (submit env q)) = alerts q @ [msg_transmitted])"
      if "js_lt (num 0) (amount q)"
      using compute_pos[OF that, of env] submit_ok[OF _ _ that, of env]
      by (simp add: page_after_def)
    have zero: "compute env q =
               (None, q\<lparr>calcZone := classList_add (lit ''hidden'') (calcZone q)\<rparr>)
             \<and> submit env q = Inr (q\<lparr>alerts := alerts q @ [msg_incomplete]\<rparr>)"
      if "\<not> truthy (amount q)"
    proof -
      from that nn have "js_le (amount q) (num 0)"
        by (cases "amount q") (simp_all add: num_def sval_def)
      then show ?thesis
        using that by (simp add: compute_non_pos submit_reject)
    qed
    from e nn pos zero
    show "amount q = parseFloat (montant_value q) \<and> amount q \<noteq> NaN
        \<and> (js_lt (num 0) (amount q) \<longrightarrow>
             compute env q =
               (Some (calc_of (amount q)),
                q\<lparr>calcZone :=
                   \<lparr>innerHTML = preview_markup (format env (amount q))
                       (format env (aici (calc_of (amount q))))
                       (format env (reste (calc_of (amount q)))),
                    classList = removeAll (lit ''hidden'') (classList (calcZone q))\<rparr>\<rparr>)
             \<and> (trim (client_value q) \<noteq> [] \<and> trim (prestation_value q) \<noteq> [] \<longrightarrow>
                  tbody (page_after (submit env q)) =
                    \<lparr>innerHTML = row_of_columns
                       [or_str (datePrest_value q) (today env), trim (client_value q),
                        trim (prestation_value q), format env (amount q),
                        format env (aici (calc_of (amount q))), label_transmis],
                     classList = []\<rparr> # tbody q
                  \<and> alerts (page_after (submit env q)) = alerts q @ [msg_transmitted]))
        \<and> (\<not> truthy (amount q) \<longrightarrow>
             compute env q =
               (None, q\<lparr>calcZone := classList_add (lit ''hidden'') (calcZone q)\<rparr>)
             \<and> submit env q = Inr (q\<lparr>alerts := alerts q @ [msg_incomplete]\<rparr>))"
      by blast
  qed
  have a: "amount ?pg = num 80" "amount ?pg' = num 80"
    by (simp_all add: amount_of_text dbl_whole)
  have p: "js_lt (num 0) (amount ?pg)" "js_lt (num 0) (amount ?pg')"
    by (simp_all only: a positive_values)
  have t: "trim (client_value ?pg') \<noteq> []" "trim (prestation_value ?pg') \<noteq> []"
    by (simp_all add: trim_nonempty)
  from compute_pos[OF p(1), of env] submit_ok[OF t p(2), of env]
  have g4: "amount (pg\<lparr>montant_value := lit ''80abc''\<rparr>) = num 80
   \<and> compute env (pg\<lparr>montant_value := lit ''80abc''\<rparr>) =
      (Some \<lparr>montant = num 80, aici = num 40, reste = num 40\<rparr>,
       pg\<lparr>montant_value := lit ''80abc'',
          calcZone := \<lparr>innerHTML = preview_markup (format env (num 80)) (format env (num 40))
                         (format env (num 40)),
                       classList = removeAll (lit ''hidden'') (classList (calcZone pg))\<rparr>\<rparr>)
   \<and> submit env (pg\<lparr>client_value := lit ''Mme Dupont'',
                      prestation_value := lit ''Jardinage'',
                      montant_value := lit ''80abc''\<rparr>) =
      Inr (pg\<lparr>client_value := [], prestation_value := [], datePrest_value := [],
              montant_value := [],
              calcZone := \<lparr>innerHTML = preview_markup (format env (num 80))
                             (format env (num 40)) (format env (num 40)),
                           classList = removeAll (lit ''hidden'') (classList (calcZone pg)) @
                             [lit ''hidden'']\<rparr>,
              tbody := \<lparr>innerHTML = row_of_columns
                          [or_str (datePrest_value pg) (today env), lit ''Mme Dupont'',
                           lit ''Jardinage'', format env (num 80), format env (num 40),
                           label_transmis],
                        classList = []\<rparr> # tbody pg,
              alerts := alerts pg @ [msg_transmitted]\<rparr>)"
    by (simp add: a calc_of_def splits trim_values)
  from g1 g2 g3 g4 show ?thesis
    by - (rule conjI, assumption, rule conjI, assumption, rule conjI, assumption, assumption)
qed

theorem amount_with_numeric_prefix_witness:
  "has_numeric_prefix (lit ''80abc'')
   \<and> parseFloat (lit ''80'' @ lit ''abc'') = num 80
   \<and> compute demo_host (demo_page\<lparr>montant_value := lit ''80abc''\<rparr>) =
      (Some \<lparr>montant = num 80, aici = num 40, reste = num 40\<rparr>,
       demo_page\<lparr>montant_value := lit ''80abc'',
         calcZone :=
          \<lparr>innerHTML = preview_markup (euros ''80,00'') (euros ''40,00'') (euros ''40,00''),
           classList = []\<rparr>\<rparr>)
   \<and> tbody (page_after (submit demo_host (demo_page\<lparr>montant_value := lit ''80abc''\<rparr>))) =
      [\<lparr>innerHTML = row_of_columns
          [lit ''2025-10-12'', lit ''Mme Dupont'', lit ''Jardinage'', euros ''80,00'',
           euros ''40,00'', label_transmis],
        classList = []\<rparr>]
   \<and> alerts (page_after (submit demo_host (demo_page\<lparr>montant_value := lit ''80abc''\<rparr>))) =
      [msg_transmitted]"
proof -
  let ?q = "demo_page\<lparr>montant_value := lit ''80abc''\<rparr>"
  note t = amount_with_numeric_prefix[of "lit ''80abc''" "lit ''80''" "lit ''abc''" ?q
      demo_host demo_page]
  have v: "parseFloat (lit ''80abc'') = num 80"
    using dbl_whole(5) by (simp add: dbl_def)
  from t v have n: "has_numeric_prefix (lit ''80abc'')"
    by (simp add: num_def)
  from t have "lit ''80'' \<noteq> [] \<and> list_all is_digit (lit ''80'') \<and> ends_number (lit ''abc'') \<longrightarrow>
      parseFloat (lit ''80'' @ lit ''abc'') = mk False (of_int (digits_val (lit ''80'')))"
    by blast
  then have d: "parseFloat (lit ''80'' @ lit ''abc'') = num 80"
    by (simp only: prefix_examples simp_thms)
  have a: "amount ?q = num 80"
    by (simp add: amount_of_text dbl_whole)
  have o: "or_str (lit ''2025-10-12'') (today demo_host) = lit ''2025-10-12''"
    by (simp add: or_str_def lit_def)
  from t have "has_numeric_prefix (montant_value ?q) \<longrightarrow>
      (js_lt (num 0) (amount ?q) \<longrightarrow>
         compute demo_host ?q =
           (Some (calc_of (amount ?q)),
            ?q\<lparr>calcZone :=
               \<lparr>innerHTML = preview_markup (format demo_host (amount ?q))
                   (format demo_host (aici (calc_of (amount ?q))))
                   (format demo_host (reste (calc_of (amount ?q)))),
                classList = removeAll (lit ''hidden'') (classList (calcZone ?q))\<rparr>\<rparr>)
         \<and> (trim (client_value ?q) \<noteq> [] \<and> trim (prestation_value ?q) \<noteq> [] \<longrightarrow>
              tbody (page_after (submit demo_host ?q)) =
                \<lparr>innerHTML = row_of_columns
                   [or_str (datePrest_value ?q) (today demo_host), trim (client_value ?q),
                    trim (prestation_value ?q), format demo_host (amount ?q),
                    format demo_host (aici (calc_of (amount ?q))), label_transmis],
                 classList = []\<rparr> # tbody ?q
              \<and> alerts (page_after (submit demo_host ?q)) = alerts ?q @ [msg_transmitted]))"
    by blast
  with n have "compute demo_host ?q =
           (Some (calc_of (amount ?q)),
            ?q\<lparr>calcZone :=
               \<lparr>innerHTML = preview_markup (format demo_host (amount ?q))
                   (format demo_host (aici (calc_of (amount ?q))))
                   (format demo_host (reste (calc_of (amount ?q)))),
                classList = removeAll (lit ''hidden'') (classList (calcZone ?q))\<rparr>\<rparr>)
         \<and> tbody (page_after (submit demo_host ?q)) =
                \<lparr>innerHTML = row_of_columns
                   [or_str (datePrest_value ?q) (today demo_host), trim (client_value ?q),
                    trim (prestation_value ?q), format demo_host (amount ?q),
                    format demo_host (aici (calc_of (amount ?q))), label_transmis],
                 classList = []\<rparr> # tbody ?q
         \<and> alerts (page_after (submit demo_host ?q)) = alerts ?q @ [msg_transmitted]"
    by (simp add: a positive_values demo_fields trim_nonempty)
  then have c: "compute demo_host ?q =
      (Some \<lparr>montant = num 80, aici = num 40, reste = num 40\<rparr>,
       demo_page\<lparr>montant_value := lit ''80abc'',
         calcZone :=
          \<lparr>innerHTML = preview_markup (euros ''80,00'') (euros ''40,00'') (euros ''40,00''),
           classList = []\<rparr>\<rparr>)"
    and r: "tbody (page_after (submit demo_host ?q)) =
      [\<lparr>innerHTML = row_of_columns
          [lit ''2025-10-12'', lit ''Mme Dupont'', lit ''Jardinage'', euros ''80,00'',
           euros ''40,00'', label_transmis],
        classList = []\<rparr>]"
    and l: "alerts (page_after (submit demo_host ?q)) = [msg_transmitted]"
    by (simp_all add: a o calc_of_def splits format_demo demo_fields trim_values)
  from n d c r l show ?thesis
    by - (intro conjI; assumption)
qed

text \<open>
  The amount text \<open>0abc\<close> has the numeric prefix \<open>0\<close> and parses to 0: the preview stays
  hidden and the submission is rejected with the notification for an incomplete form,
  exactly as for the text \<open>abc\<close>, which does not parse.
\<close>

theorem numeric_prefix_zero_is_rejected:
  "has_numeric_prefix (lit ''0abc'')
   \<and> amount (demo_page\<lparr>montant_value := lit ''0abc''\<rparr>) = num 0
   \<and> compute demo_host (demo_page\<lparr>montant_value := lit ''0abc''\<rparr>) =
      (None, demo_page\<lparr>montant_value := lit ''0abc''\<rparr>)
   \<and> hidden (snd (compute demo_host (demo_page\<lparr>montant_value := lit ''0abc''\<rparr>)))
   \<and> submit demo_host (demo_page\<lparr>montant_value := lit ''0abc''\<rparr>) =
      Inr (demo_page\<lparr>montant_value := lit ''0abc'', alerts := [msg_incomplete]\<rparr>)
   \<and> submit demo_host (demo_page\<lparr>montant_value := lit ''abc''\<rparr>) =
      Inr (demo_page\<lparr>montant_value := lit ''abc'', alerts := [msg_incomplete]\<rparr>)"
proof -
  let ?z = "demo_page\<lparr>montant_value := lit ''0abc''\<rparr>"
  let ?n = "demo_page\<lparr>montant_value := lit ''abc''\<rparr>"
  have a: "amount ?z = num 0" "amount ?n = NaN"
    by (simp_all add: amount_of_text dbl_0abc dbl_other)
  have z: "isNaN (amount ?z) \<or> js_le (amount ?z) (num 0)"
    by (simp add: a num_def sval_def)
  have c: "compute demo_host ?z = (None, ?z)"
    using compute_non_pos[OF z, of demo_host] by (simp add: demo_fields demo_already_hidden)
  then have h: "hidden (snd (compute demo_host ?z))"
    by (simp add: hidden_def demo_fields)
  have s1: "submit demo_host ?z = Inr (?z\<lparr>alerts := [msg_incomplete]\<rparr>)"
    using submit_reject[of ?z demo_host] by (simp add: a num_def demo_fields)
  have s2: "submit demo_host ?n = Inr (?n\<lparr>alerts := [msg_incomplete]\<rparr>)"
    using submit_reject[of ?n demo_host] by (simp add: a demo_fields)
  from prefix_examples(1) a(1) c h s1 s2 show ?thesis
    by - (intro conjI; assumption)
qed

end
